theory Spec2Isabelle
  imports Complex_Main
begin

section \<open>Layered constraint resolver (constraint-utils.ts)\<close>

text \<open>
  JavaScript numbers are modelled as \<open>real\<close> for coordinates and as \<open>int\<close> for layer
  and position ids and constraints. Object identity of a KNode is its \<open>id\<close> string.
  A \<open>TypeError\<close> raised by reading a property of \<open>undefined\<close> is the result \<open>None\<close>.
\<close>

datatype Direction = UNDEFINED | RIGHT | LEFT | DOWN | UP

record kprops =
  layerId :: int
  positionId :: int
  layerConstraint :: int
  positionConstraint :: int

record knode =
  nid :: string
  position_x :: real
  position_y :: real
  size_width :: real
  size_height :: real
  shadow :: bool
  shadowX :: real
  shadowY :: real
  selected :: bool
  direction :: Direction
  properties :: kprops

record Layer =
  lid :: int
  begin_l :: real
  end_l :: real
  mid :: real
  ldirection :: Direction
  topBorder :: real
  bottomBorder :: real

datatype Action =
    RefreshDiagramAction
  | SetLayerConstraintAction string int int
  | SetStaticConstraintAction string int int int int
  | SetPositionConstraintAction string int int

text \<open>The parts of the object graph that \<open>isLayerForbidden\<close> reaches through references:
  \<open>filterKNodes(node.parent.children)\<close>, the endpoints of the edges of a node, and the
  function \<open>getChain\<close> of relativeConstraint-utils, which is taken as a parameter.\<close>

record graph =
  parentChildren :: "knode list"
  getChain :: "knode \<Rightarrow> knode list \<Rightarrow> knode list"
  outgoingTargets :: "knode \<Rightarrow> knode list"
  incomingSources :: "knode \<Rightarrow> knode list"

definition coordinateInLayoutDirection :: "knode \<Rightarrow> Direction \<Rightarrow> real" where
  "coordinateInLayoutDirection node dir =
     (if dir = UNDEFINED \<or> dir = RIGHT \<or> dir = LEFT
      then position_x node + size_width node / 2
      else position_y node + size_height node / 2)"

text \<open>The test of the \<open>for\<close> loop of \<open>getLayerOfNode\<close>: only \<open>layer.end\<close> is read.\<close>

definition layerMatches :: "real \<Rightarrow> Direction \<Rightarrow> Layer \<Rightarrow> bool" where
  "layerMatches c dir layer =
     ((c < end_l layer \<and> (dir = UNDEFINED \<or> dir = RIGHT \<or> dir = DOWN)) \<or>
      (c > end_l layer \<and> (dir = LEFT \<or> dir = UP)))"

fun firstMatchingLayer :: "real \<Rightarrow> Direction \<Rightarrow> Layer list \<Rightarrow> int option" where
  "firstMatchingLayer c dir [] = None"
| "firstMatchingLayer c dir (layer # layers) =
     (if layerMatches c dir layer then Some (lid layer) else firstMatchingLayer c dir layers)"

fun getNodesOfLayer :: "int \<Rightarrow> knode list \<Rightarrow> knode list" where
  "getNodesOfLayer layer [] = []"
| "getNodesOfLayer layer (node # nodes) =
     (if layerId (properties node) = layer then node # getNodesOfLayer layer nodes
      else getNodesOfLayer layer nodes)"

definition getLayerOfNode :: "knode \<Rightarrow> knode list \<Rightarrow> Layer list \<Rightarrow> Direction \<Rightarrow> int option" where
  "getLayerOfNode node nodes layers dir =
     (case firstMatchingLayer (coordinateInLayoutDirection node dir) dir layers of
        Some i \<Rightarrow> Some i
      | None \<Rightarrow>
          (if layers = [] then None
           else let lastLNodes = getNodesOfLayer (lid (last layers)) nodes in
             if length lastLNodes = 1 \<and> selected (hd lastLNodes)
             then Some (lid (last layers))
             else Some (lid (last layers) + 1)))"

text \<open>The loop of \<open>getActualLayer\<close> that searches the highest layer constraint.\<close>

fun maxConsLoop :: "knode list \<Rightarrow> knode option \<times> int \<Rightarrow> knode option \<times> int" where
  "maxConsLoop [] acc = acc"
| "maxConsLoop (n # ns) (nodeWithMaxCons, maxCons) =
     (if layerConstraint (properties n) > maxCons
      then maxConsLoop ns (Some n, layerConstraint (properties n))
      else maxConsLoop ns (nodeWithMaxCons, maxCons))"

definition getActualLayer :: "knode \<Rightarrow> knode list \<Rightarrow> int \<Rightarrow> int" where
  "getActualLayer node nodes layerCandidate =
     (let layerConstraintLeftOfCandidate =
            filter (\<lambda>n. layerId (properties n) \<le> layerCandidate
                        \<and> layerConstraint (properties n) > layerId (properties n)) nodes
      in if length layerConstraintLeftOfCandidate = 0 then layerCandidate
         else case maxConsLoop layerConstraintLeftOfCandidate (None, -1) of
                (Some nodeWithMaxCons, maxCons) \<Rightarrow>
                   maxCons + (layerCandidate - layerId (properties nodeWithMaxCons))
              | (None, maxCons) \<Rightarrow> layerCandidate)"

definition getActualTargetIndex :: "int \<Rightarrow> bool \<Rightarrow> knode list \<Rightarrow> int option" where
  "getActualTargetIndex targetIndex alreadyInLayer layerNodes =
     (if targetIndex > 0 then
        (let upperIndex = targetIndex - 1 in
         if nat upperIndex < length layerNodes then
           (let upperNeighbor = layerNodes ! nat upperIndex;
                posConsOfUpper = positionConstraint (properties upperNeighbor)
            in if posConsOfUpper > upperIndex then
                 (if alreadyInLayer \<and> positionId (properties upperNeighbor) = targetIndex
                  then Some posConsOfUpper
                  else Some (posConsOfUpper + 1))
               else Some targetIndex)
         else None)
      else Some targetIndex)"

text \<open>\<open>Array.prototype.indexOf\<close> on nodes: the first index holding the same object.\<close>

fun indexOf :: "knode list \<Rightarrow> knode \<Rightarrow> nat option" where
  "indexOf [] target = None"
| "indexOf (n # ns) target =
     (if nid n = nid target then Some 0
      else case indexOf ns target of None \<Rightarrow> None | Some i \<Rightarrow> Some (Suc i))"

definition crossCoordinate :: "Direction \<Rightarrow> knode \<Rightarrow> real" where
  "crossCoordinate dir n =
     (if dir = UP \<or> dir = DOWN then position_x n else position_y n)"

text \<open>The in-place stable sort at the head of \<open>getPositionInLayer\<close>; the caller
  sees the sorted array afterwards.\<close>

definition sortLayerNodes :: "Direction \<Rightarrow> knode list \<Rightarrow> knode list" where
  "sortLayerNodes dir nodes = sort_key (crossCoordinate dir) nodes"

fun firstBelow :: "Direction \<Rightarrow> knode \<Rightarrow> knode list \<Rightarrow> nat \<Rightarrow> nat" where
  "firstBelow dir target [] i = i"
| "firstBelow dir target (n # ns) i =
     (if crossCoordinate dir target < crossCoordinate dir n then i
      else firstBelow dir target ns (Suc i))"

definition getPositionInLayer :: "knode list \<Rightarrow> knode \<Rightarrow> Direction \<Rightarrow> int" where
  "getPositionInLayer nodes target dir =
     (let sorted = sortLayerNodes dir nodes in
      case indexOf sorted target of
        Some i \<Rightarrow> int i
      | None \<Rightarrow> int (firstBelow dir target sorted 0))"

definition connectedNodes :: "graph \<Rightarrow> knode list \<Rightarrow> knode list" where
  "connectedNodes g chainNodes =
     concat (map (\<lambda>n. outgoingTargets g n @ incomingSources g n) chainNodes)"

fun hasPinnedInLayer :: "int \<Rightarrow> knode list \<Rightarrow> bool" where
  "hasPinnedInLayer layer [] = False"
| "hasPinnedInLayer layer (n # ns) =
     (if layerId (properties n) = layer \<and> layerConstraint (properties n) \<noteq> -1 then True
      else hasPinnedInLayer layer ns)"

definition isLayerForbidden :: "graph \<Rightarrow> knode \<Rightarrow> int \<Rightarrow> bool" where
  "isLayerForbidden g node layer =
     (let layerNodes = getNodesOfLayer (layerId (properties node)) (parentChildren g);
          chainNodes = getChain g node layerNodes
      in hasPinnedInLayer layer (connectedNodes g chainNodes))"

definition shouldOnlyLCBeSet :: "knode \<Rightarrow> Layer list \<Rightarrow> Direction \<Rightarrow> bool" where
  "shouldOnlyLCBeSet node layers dir =
     (let coordinateToCheck =
            (if dir = UNDEFINED \<or> dir = RIGHT \<or> dir = LEFT
             then position_y node else position_x node)
      in case layers of
           [] \<Rightarrow> False
         | l # _ \<Rightarrow> coordinateToCheck < topBorder l \<or> coordinateToCheck > bottomBorder l)"

definition setProperty :: "graph \<Rightarrow> knode list \<Rightarrow> Layer list \<Rightarrow> knode \<Rightarrow> Action option" where
  "setProperty g nodes layers targetNode =
     (let dir = direction targetNode in
      case getLayerOfNode targetNode nodes layers dir of
        None \<Rightarrow> None
      | Some layerOfTarget \<Rightarrow>
         (let nodesOfLayer = getNodesOfLayer layerOfTarget nodes;
              positionOfTarget = getPositionInLayer nodesOfLayer targetNode dir;
              sortedLayer = sortLayerNodes dir nodesOfLayer
          in case getActualTargetIndex positionOfTarget
                    (indexOf sortedLayer targetNode \<noteq> None) sortedLayer of
               None \<Rightarrow> None
             | Some newPositionCons \<Rightarrow>
                (let newLayerCons = getActualLayer targetNode nodes layerOfTarget;
                     forbidden = isLayerForbidden g targetNode newLayerCons
                 in if forbidden then Some RefreshDiagramAction
                    else if layerId (properties targetNode) \<noteq> layerOfTarget then
                      (if shouldOnlyLCBeSet targetNode layers dir
                       then Some (SetLayerConstraintAction (nid targetNode)
                                    layerOfTarget newLayerCons)
                       else Some (SetStaticConstraintAction (nid targetNode)
                                    layerOfTarget newLayerCons positionOfTarget newPositionCons))
                    else if positionId (properties targetNode) \<noteq> positionOfTarget
                      then Some (SetPositionConstraintAction (nid targetNode)
                                   positionOfTarget newPositionCons)
                    else Some RefreshDiagramAction)))"

subsection \<open>The half-open interval reading of a layer\<close>

text \<open>Written from the specification's words, to be compared with \<open>layerMatches\<close>:
  a layer holds a coordinate when its direction-aware half-open interval from
  \<open>begin\<close> to \<open>end\<close> contains it.\<close>

definition intervalContains :: "Direction \<Rightarrow> Layer \<Rightarrow> real \<Rightarrow> bool" where
  "intervalContains dir l c =
     (if dir = LEFT \<or> dir = UP then end_l l < c \<and> c \<le> begin_l l
      else begin_l l \<le> c \<and> c < end_l l)"

text \<open>Each layer begins where its predecessor ends, as \<open>getLayers\<close> arranges it.\<close>

fun contiguous :: "Layer list \<Rightarrow> bool" where
  "contiguous [] = True"
| "contiguous [a] = True"
| "contiguous (a # b # ls) = (end_l a = begin_l b \<and> contiguous (b # ls))"

definition notBeforeFirst :: "Direction \<Rightarrow> Layer list \<Rightarrow> real \<Rightarrow> bool" where
  "notBeforeFirst dir layers c =
     (case layers of [] \<Rightarrow> False
      | l # _ \<Rightarrow> (if dir = LEFT \<or> dir = UP then c \<le> begin_l l else begin_l l \<le> c))"

subsection \<open>Example diagrams\<close>

definition mkNode :: "string \<Rightarrow> real \<Rightarrow> real \<Rightarrow> bool \<Rightarrow> int \<Rightarrow> int \<Rightarrow> int \<Rightarrow> knode" where
  "mkNode i x y sel lay pos lc =
     \<lparr>nid = i, position_x = x, position_y = y, size_width = 0, size_height = 0,
      shadow = False, shadowX = 0, shadowY = 0, selected = sel, direction = RIGHT,
      properties = \<lparr>layerId = lay, positionId = pos, layerConstraint = lc,
                    positionConstraint = -1\<rparr>\<rparr>"

definition mkLayer :: "int \<Rightarrow> real \<Rightarrow> real \<Rightarrow> Layer" where
  "mkLayer i b e = \<lparr>lid = i, begin_l = b, end_l = e, mid = b + (e - b) / 2,
      ldirection = RIGHT, topBorder = -20, bottomBorder = 120\<rparr>"

text \<open>Three layers of a RIGHT layout with the bounds 0, 100, 220 and 300.\<close>

definition exLayers :: "Layer list" where
  "exLayers = [mkLayer 0 0 100, mkLayer 1 100 220, mkLayer 2 220 300]"

definition exGraph :: graph where
  "exGraph = \<lparr>parentChildren = [], getChain = (\<lambda>n ns. [n]),
     outgoingTargets = (\<lambda>n. []), incomingSources = (\<lambda>n. [])\<rparr>"

text \<open>A node whose ghost is drawn at (150, 100) while its \<open>position\<close> is (50, 10).\<close>

definition shadowedA :: knode where
  "shadowedA = (mkNode ''A'' 50 10 True 0 0 (-1))\<lparr>shadow := True, shadowX := 150, shadowY := 100\<rparr>"

text \<open>A change of the shadow flag and the shadow coordinates of nodes, chosen per node; it is
  applied to a target and to the node lists at once, since the target is one of the objects
  in those lists.\<close>

definition reshadow ::
  "(knode \<Rightarrow> bool) \<Rightarrow> (knode \<Rightarrow> real) \<Rightarrow> (knode \<Rightarrow> real) \<Rightarrow> knode \<Rightarrow> knode" where
  "reshadow s sx sy n = n\<lparr>shadow := s n, shadowX := sx n, shadowY := sy n\<rparr>"

definition atShadow :: "knode \<Rightarrow> knode" where
  "atShadow n = n\<lparr>position_x := shadowX n, position_y := shadowY n\<rparr>"

definition beforeFirst :: knode where
  "beforeFirst = mkNode ''A'' (-50) 10 True 1 0 (-1)"

text \<open>A is dragged from layer 0 into layer 1, where B sits: B is connected to A and has a
  layer constraint; C in layer 0 has the layer constraint 3, which boosts the candidate.\<close>

definition boostA :: knode where "boostA = mkNode ''A'' 150 10 True 0 0 (-1)"
definition boostB :: knode where "boostB = mkNode ''B'' 150 60 False 1 0 4"
definition boostC :: knode where "boostC = mkNode ''C'' 50 60 False 0 1 3"

definition boostGraph :: graph where
  "boostGraph = \<lparr>parentChildren = [boostA, boostB, boostC], getChain = (\<lambda>n ns. [n]),
     outgoingTargets = (\<lambda>n. if nid n = ''A'' then [boostB] else []),
     incomingSources = (\<lambda>n. if nid n = ''B'' then [boostA] else [])\<rparr>"

section \<open>Region tree and expand/collapse engine (depth-map.ts)\<close>

text \<open>
  Objects are modelled with an explicit heap. A \<open>Region\<close> is known by its index in the list
  \<open>regions\<close> (its allocation order); \<open>parent\<close>, \<open>children\<close>, \<open>rootRegions\<close> and
  \<open>criticalRegions\<close> hold such indices. The two fields that \<open>expandCollapse\<close> writes,
  \<open>Region.expansionState\<close> and \<open>KNode.expansionState\<close>, are the stores
  \<open>expansionState\<close> (by region index) and \<open>nodeExpansionState\<close> (by node id); a field
  that was never written (\<open>undefined\<close>) is \<open>None\<close>. A JavaScript \<open>Set\<close> is a list
  without duplicates in insertion order. The \<open>scroll\<close> of a viewport is an object, which
  \<open>===\<close> compares by identity: \<open>scroll_ref\<close> is that identity. Numbers are real
  numbers; a division by zero, which gives an infinity or NaN in JavaScript, is outside the
  model, so canvas sizes and zoom factors are meant to be positive.
\<close>

datatype rendering = Rendering (rtype: string) (rchildren: "rendering list option")

datatype snode = SNode (sid: string) (bounds_width: real) (bounds_height: real)
  (sdata: "rendering list option") (schildren: "snode list option")

record smodelroot =
  root_ref :: nat
  root_children :: "snode list option"
  canvasBounds_width :: real
  canvasBounds_height :: real

record bounds =
  b_x :: real
  b_y :: real
  b_width :: real
  b_height :: real

record viewport =
  scroll_ref :: nat
  scroll_x :: real
  scroll_y :: real
  zoom :: real

text \<open>What the engine reads of the KNode that frames a region: its id and its bounds.\<close>

record rectangle =
  rect_id :: string
  rect_width :: real
  rect_height :: real

record region =
  elements :: "string list"
  boundingRectangle :: "rectangle option"
  absoluteBounds :: "bounds option"
  parent :: "nat option"
  children :: "nat list"

record depthmap =
  rootRegions :: "nat list"
  rootElement :: smodelroot
  regions :: "region list"
  regionMap :: "string \<Rightarrow> nat option"
  viewport_dm :: "viewport option"
  criticalRegions :: "nat list"
  absoluteVisibilityBuffer :: real
  expansionState :: "nat \<Rightarrow> bool option"
  nodeExpansionState :: "string \<Rightarrow> bool option"

datatype completion = Normal | TypeError

definition EXPANDED :: bool where [simp]: "EXPANDED = True"
definition COLLAPSED :: bool where [simp]: "COLLAPSED = False"

definition K_RECTANGLE :: string where
  "K_RECTANGLE = ''KRectangleImpl''"

subsection \<open>Sets in insertion order and iteration\<close>

definition setAdd :: "'a \<Rightarrow> 'a list \<Rightarrow> 'a list" where
  "setAdd x xs = (if x \<in> set xs then xs else xs @ [x])"

definition setDelete :: "'a \<Rightarrow> 'a list \<Rightarrow> 'a list" where
  "setDelete x xs = removeAll x xs"

fun forEachM :: "('a \<Rightarrow> 's \<Rightarrow> 's option) \<Rightarrow> 'a list \<Rightarrow> 's \<Rightarrow> 's option" where
  "forEachM f [] s = Some s"
| "forEachM f (x # xs) s = (case f x s of None \<Rightarrow> None | Some s' \<Rightarrow> forEachM f xs s')"

subsection \<open>Construction\<close>

definition newDepthMap :: "smodelroot \<Rightarrow> depthmap" where
  "newDepthMap rootElem =
     \<lparr>rootRegions = [], rootElement = rootElem, regions = [], regionMap = (\<lambda>k. None),
      viewport_dm = None, criticalRegions = [], absoluteVisibilityBuffer = 500,
      expansionState = (\<lambda>r. None), nodeExpansionState = (\<lambda>e. None)\<rparr>"

text \<open>\<open>new Region(node)\<close>: the new object takes the next free index.\<close>

definition newRegion :: "snode \<Rightarrow> depthmap \<Rightarrow> nat \<times> depthmap" where
  "newRegion node dm =
     (length (regions dm),
      dm\<lparr>regions := regions dm @
           [\<lparr>elements = [],
             boundingRectangle = Some \<lparr>rect_id = sid node, rect_width = bounds_width node,
                                       rect_height = bounds_height node\<rparr>,
             absoluteBounds = None,
             parent = None, children = []\<rparr>]\<rparr>)"

definition addRegionToMap :: "nat \<Rightarrow> depthmap \<Rightarrow> depthmap" where
  "addRegionToMap r dm =
     (case boundingRectangle (regions dm ! r) of
        Some node \<Rightarrow> dm\<lparr>regionMap := (regionMap dm)(rect_id node := Some r)\<rparr>
      | None \<Rightarrow> dm)"

text \<open>The test of \<open>initHelper\<close> for the bounding rectangle of a child area; reading
  \<open>length\<close> of an undefined \<open>data\<close> or index 0 of undefined \<open>children\<close> throws.\<close>

definition isChildArea :: "snode \<Rightarrow> bool option" where
  "isChildArea child =
     (case sdata child of
        None \<Rightarrow> None
      | Some [] \<Rightarrow> Some False
      | Some (d # _) \<Rightarrow>
          (if rtype d = K_RECTANGLE then
             (case rchildren d of None \<Rightarrow> None | Some [] \<Rightarrow> Some False | Some (_ # _) \<Rightarrow> Some True)
           else Some False))"

text \<open>The single writes of \<open>init\<close> and \<open>initHelper\<close>:
  \<open>region.elements.push(child)\<close>, \<open>nextRegion.parent = region\<close>,
  \<open>region.children.add(nextRegion)\<close> and \<open>this.rootRegions.push(region)\<close>.\<close>

definition pushElement :: "nat \<Rightarrow> snode \<Rightarrow> depthmap \<Rightarrow> depthmap" where
  "pushElement region child dm =
     dm\<lparr>regions := (regions dm)[region :=
          (regions dm ! region)\<lparr>elements := elements (regions dm ! region) @ [sid child]\<rparr>]\<rparr>"

definition setParent :: "nat \<Rightarrow> nat \<Rightarrow> depthmap \<Rightarrow> depthmap" where
  "setParent nextRegion region dm =
     dm\<lparr>regions := (regions dm)[nextRegion :=
          (regions dm ! nextRegion)\<lparr>parent := Some region\<rparr>]\<rparr>"

definition addChild :: "nat \<Rightarrow> nat \<Rightarrow> depthmap \<Rightarrow> depthmap" where
  "addChild region nextRegion dm =
     dm\<lparr>regions := (regions dm)[region :=
          (regions dm ! region)\<lparr>children := setAdd nextRegion (children (regions dm ! region))\<rparr>]\<rparr>"

definition pushRootRegion :: "nat \<Rightarrow> depthmap \<Rightarrow> depthmap" where
  "pushRootRegion region dm = dm\<lparr>rootRegions := rootRegions dm @ [region]\<rparr>"

text \<open>The parameter \<open>depth\<close> of \<open>initHelper\<close> is passed on and never read; it is left
  out. A call that ends by an exception returns the depth map as the exception left it.\<close>

fun initHelper :: "snode \<Rightarrow> nat \<Rightarrow> depthmap \<Rightarrow> depthmap \<times> completion"
  and initChildren :: "snode list \<Rightarrow> nat \<Rightarrow> depthmap \<Rightarrow> depthmap \<times> completion" where
  "initHelper (SNode i w h d None) region dm = (dm, TypeError)"
| "initHelper (SNode i w h d (Some cs)) region dm = initChildren cs region dm"
| "initChildren [] region dm = (dm, Normal)"
| "initChildren (child # rest) region dm =
     (case isChildArea child of
        None \<Rightarrow> (pushElement region child dm, TypeError)
      | Some True \<Rightarrow>
          (case newRegion child (pushElement region child dm) of
             (nextRegion, dm2) \<Rightarrow>
               (case initHelper child nextRegion
                       (addRegionToMap nextRegion
                          (addChild region nextRegion (setParent nextRegion region dm2))) of
                  (dm3, TypeError) \<Rightarrow> (dm3, TypeError)
                | (dm3, Normal) \<Rightarrow> initChildren rest region dm3))
      | Some False \<Rightarrow>
          (case initHelper child region (pushElement region child dm) of
             (dm2, TypeError) \<Rightarrow> (dm2, TypeError)
           | (dm2, Normal) \<Rightarrow> initChildren rest region dm2))"

fun initRoots :: "snode list \<Rightarrow> depthmap \<Rightarrow> depthmap \<times> completion" where
  "initRoots [] dm = (dm, Normal)"
| "initRoots (node # rest) dm =
     (case newRegion node dm of
        (region, dm1) \<Rightarrow>
          (case initHelper node region (addRegionToMap region (pushRootRegion region dm1)) of
             (dm2, TypeError) \<Rightarrow> (dm2, TypeError)
           | (dm2, Normal) \<Rightarrow> initRoots rest dm2))"

definition init :: "smodelroot \<Rightarrow> depthmap \<Rightarrow> depthmap \<times> completion" where
  "init model_root dm =
     (case root_children model_root of
        None \<Rightarrow> (dm, TypeError)
      | Some cs \<Rightarrow> initRoots cs dm)"

text \<open>\<open>getInstance\<close> takes the static field \<open>DepthMap.instance\<close> and returns its new
  value, which is also the result, with the lines written to the console.\<close>

definition getInstance :: "depthmap option \<Rightarrow> smodelroot \<Rightarrow> depthmap \<times> string list" where
  "getInstance inst rootElem =
     (case (case inst of None \<Rightarrow> None
            | Some d \<Rightarrow> if root_ref (rootElement d) \<noteq> root_ref rootElem then None else Some d) of
        Some d \<Rightarrow> (d, [])
      | None \<Rightarrow>
          (case init rootElem (newDepthMap rootElem) of
             (dm, Normal) \<Rightarrow>
               (dm, [''Starting reinizialization of DepthMap'', ''Reinizialized DepthMap''])
           | (dm, TypeError) \<Rightarrow>
               (dm, [''Starting reinizialization of DepthMap'',
                     ''Failed to initialize DepthMap''])))"

subsection \<open>Expansion test\<close>

definition isVisible :: "depthmap \<Rightarrow> nat \<Rightarrow> viewport \<Rightarrow> bool" where
  "isVisible dm r vp =
     (case absoluteBounds (regions dm ! r) of
        Some ab \<Rightarrow>
          b_x ab + b_width ab \<ge> scroll_x vp - absoluteVisibilityBuffer dm
          \<and> b_x ab \<le> scroll_x vp + (canvasBounds_width (rootElement dm) / zoom vp)
                        + absoluteVisibilityBuffer dm
          \<and> b_y ab + b_height ab \<ge> scroll_y vp - absoluteVisibilityBuffer dm
          \<and> b_y ab \<le> scroll_y vp + (canvasBounds_height (rootElement dm) / zoom vp)
                        + absoluteVisibilityBuffer dm
      | None \<Rightarrow> True)"

definition sizeInViewport :: "depthmap \<Rightarrow> rectangle \<Rightarrow> viewport \<Rightarrow> real" where
  "sizeInViewport dm node vp =
     (let horizontal = rect_width node / (canvasBounds_width (rootElement dm) / zoom vp);
          vertical = rect_height node / (canvasBounds_height (rootElement dm) / zoom vp)
      in if horizontal > vertical then horizontal else vertical)"

definition getExpansionState :: "depthmap \<Rightarrow> nat \<Rightarrow> viewport \<Rightarrow> real \<Rightarrow> bool" where
  "getExpansionState dm r vp threshold =
     (if \<not> isVisible dm r vp then COLLAPSED
      else case boundingRectangle (regions dm ! r) of
             None \<Rightarrow> EXPANDED
           | Some node \<Rightarrow>
               (let viewportSize = sizeInViewport dm node vp
                in if viewportSize \<ge> threshold \<or> zoom vp \<ge> 1 then EXPANDED else COLLAPSED))"

text \<open>\<open>renderingOptions.getOption(ExpandCollapseThreshold.ID)\<close> is the current value of
  the option when it is registered.\<close>

definition expandCollapseThreshold :: "real option \<Rightarrow> real" where
  "expandCollapseThreshold thresholdOption =
     (case thresholdOption of Some currentValue \<Rightarrow> currentValue | None \<Rightarrow> 0.2)"

subsection \<open>Propagation\<close>

definition setExpansionState :: "nat \<Rightarrow> bool \<Rightarrow> depthmap \<Rightarrow> depthmap" where
  "setExpansionState r state dm =
     dm\<lparr>expansionState := (expansionState dm)(r := Some state),
        nodeExpansionState :=
          fold (\<lambda>elem f. f(elem := Some state)) (elements (regions dm ! r))
               (nodeExpansionState dm)\<rparr>"

definition criticalAdd :: "nat \<Rightarrow> depthmap \<Rightarrow> depthmap" where
  "criticalAdd r dm = dm\<lparr>criticalRegions := setAdd r (criticalRegions dm)\<rparr>"

definition criticalDelete :: "nat \<Rightarrow> depthmap \<Rightarrow> depthmap" where
  "criticalDelete r dm = dm\<lparr>criticalRegions := setDelete r (criticalRegions dm)\<rparr>"

text \<open>The recursive functions take the depth of recursion they may use as their first
  argument; \<open>None\<close> is a recursion that did not end within it.\<close>

fun recursiveCollapseRegion :: "nat \<Rightarrow> nat \<Rightarrow> depthmap \<Rightarrow> depthmap option" where
  "recursiveCollapseRegion 0 r dm = None"
| "recursiveCollapseRegion (Suc n) r dm =
     forEachM (\<lambda>childRegion d.
                 if expansionState d childRegion = Some EXPANDED
                 then recursiveCollapseRegion n childRegion d else Some d)
       (children (regions dm ! r))
       (criticalDelete r (setExpansionState r COLLAPSED dm))"

fun searchUntilCollapse :: "nat \<Rightarrow> viewport \<Rightarrow> real \<Rightarrow> nat \<Rightarrow> depthmap \<Rightarrow> depthmap option" where
  "searchUntilCollapse 0 vp threshold r dm = None"
| "searchUntilCollapse (Suc n) vp threshold r dm =
     forEachM (\<lambda>childRegion d.
                 if boundingRectangle (regions d ! childRegion) \<noteq> None then
                   (if getExpansionState d childRegion vp threshold = COLLAPSED
                    then recursiveCollapseRegion n childRegion (criticalAdd r d)
                    else searchUntilCollapse n vp threshold childRegion d)
                 else Some d)
       (children (regions dm ! r))
       (setExpansionState r True dm)"

text \<open>One pass of \<open>toBeProcessed.forEach\<close> in \<open>checkCriticalRegions\<close>; the state is
  \<open>nextToBeProcessed\<close>, \<open>childSet\<close> and the depth map.\<close>

definition processCritical ::
  "nat \<Rightarrow> viewport \<Rightarrow> real \<Rightarrow> nat \<Rightarrow> nat list \<times> nat list \<times> depthmap
     \<Rightarrow> (nat list \<times> nat list \<times> depthmap) option" where
  "processCritical n vp threshold r st =
     (case st of (nextToBeProcessed, childSet, dm) \<Rightarrow>
        if (case parent (regions dm ! r) of
              Some p \<Rightarrow> expansionState dm p = Some COLLAPSED | None \<Rightarrow> False)
           \<or> \<not> getExpansionState dm r vp threshold
        then
          (let dm1 = criticalDelete r (setExpansionState r False dm);
               (next1, dm2) =
                  (case parent (regions dm1 ! r) of
                     Some p \<Rightarrow> (setAdd p nextToBeProcessed, criticalAdd p dm1)
                   | None \<Rightarrow> (nextToBeProcessed, dm1))
           in case forEachM (\<lambda>childRegion d. recursiveCollapseRegion n childRegion d)
                     (children (regions dm2 ! r)) dm2 of
                None \<Rightarrow> None
              | Some dm3 \<Rightarrow> Some (next1, childSet, dm3))
        else Some (nextToBeProcessed,
                   fold setAdd (children (regions dm ! r)) childSet, dm))"

fun processLoop ::
  "nat \<Rightarrow> viewport \<Rightarrow> real \<Rightarrow> nat list \<Rightarrow> nat list \<Rightarrow> depthmap
     \<Rightarrow> (nat list \<times> depthmap) option" where
  "processLoop 0 vp threshold toBeProcessed childSet dm = None"
| "processLoop (Suc n) vp threshold toBeProcessed childSet dm =
     (if toBeProcessed = [] then Some (childSet, dm)
      else case forEachM (processCritical n vp threshold) toBeProcessed ([], childSet, dm) of
             None \<Rightarrow> None
           | Some (nextToBeProcessed, childSet', dm') \<Rightarrow>
               processLoop n vp threshold nextToBeProcessed childSet' dm')"

definition checkCriticalRegions :: "nat \<Rightarrow> viewport \<Rightarrow> real \<Rightarrow> depthmap \<Rightarrow> depthmap option" where
  "checkCriticalRegions n vp threshold dm =
     (case processLoop n vp threshold (criticalRegions dm) [] dm of
        None \<Rightarrow> None
      | Some (childSet, dm1) \<Rightarrow>
          forEachM (\<lambda>childRegion d.
                      if getExpansionState d childRegion vp threshold = EXPANDED
                      then searchUntilCollapse n vp threshold childRegion d
                      else recursiveCollapseRegion n childRegion
                             (case parent (regions d ! childRegion) of
                                Some p \<Rightarrow> criticalAdd p d | None \<Rightarrow> d))
            childSet dm1)"

definition sameViewport :: "viewport option \<Rightarrow> viewport \<Rightarrow> bool" where
  "sameViewport old vp =
     (case old of None \<Rightarrow> False
      | Some v \<Rightarrow> scroll_ref v = scroll_ref vp \<and> zoom v = zoom vp)"

definition expandCollapse :: "nat \<Rightarrow> viewport \<Rightarrow> real option \<Rightarrow> depthmap \<Rightarrow> depthmap option" where
  "expandCollapse n vp renderingOptions dm =
     (if sameViewport (viewport_dm dm) vp then Some dm
      else
        (let dm1 = dm\<lparr>viewport_dm := Some vp\<rparr>;
             threshold = expandCollapseThreshold renderingOptions
         in if criticalRegions dm1 = [] then
              forEachM (\<lambda>r d. if getExpansionState d r vp threshold = EXPANDED
                               then searchUntilCollapse n vp threshold r d else Some d)
                (rootRegions dm1) dm1
            else checkCriticalRegions n vp threshold dm1))"

subsection \<open>Example models\<close>

definition rectData :: "rendering list option" where
  "rectData = Some [Rendering K_RECTANGLE (Some [Rendering ''KChildAreaImpl'' None])]"

text \<open>Consecutive calls of \<open>expandCollapse\<close> with the default threshold.\<close>

definition expandCollapseSeq :: "viewport list \<Rightarrow> depthmap \<Rightarrow> depthmap option" where
  "expandCollapseSeq vps dm = fold (\<lambda>vp d. Option.bind d (expandCollapse 5 vp None)) vps (Some dm)"

definition regionStates :: "depthmap option \<Rightarrow> bool option list" where
  "regionStates d =
     (case d of None \<Rightarrow> [] | Some dm \<Rightarrow> map (expansionState dm) [0..<length (regions dm)])"

definition criticalOf :: "depthmap option \<Rightarrow> nat list option" where
  "criticalOf d = map_option criticalRegions d"

definition mkRegion ::
  "string list \<Rightarrow> string \<Rightarrow> real \<Rightarrow> bounds option \<Rightarrow> nat option \<Rightarrow> nat list \<Rightarrow> region" where
  "mkRegion es i w ab p cs =
     \<lparr>elements = es, boundingRectangle = Some \<lparr>rect_id = i, rect_width = w, rect_height = w\<rparr>,
      absoluteBounds = ab, parent = p, children = cs\<rparr>"

text \<open>A model with the child areas Y, R, C and D and the text t: Y contains R and D, R
  contains C, C contains t. The canvas is 1000 by 1000.\<close>

definition exRoot :: smodelroot where
  "exRoot = \<lparr>root_ref = 1,
     root_children = Some [SNode ''Y'' 800 800 rectData (Some
        [SNode ''R'' 600 600 rectData (Some [SNode ''C'' 300 300 rectData
            (Some [SNode ''t'' 10 10 (Some [Rendering ''KTextImpl'' None]) (Some [])])]),
         SNode ''D'' 100 100 rectData (Some [])])],
     canvasBounds_width = 1000, canvasBounds_height = 1000\<rparr>"

text \<open>The assignment \<open>region.absoluteBounds = bounds\<close>, which the views make when they
  draw a region.\<close>

definition setAbsoluteBounds :: "nat \<Rightarrow> bounds \<Rightarrow> depthmap \<Rightarrow> depthmap" where
  "setAbsoluteBounds r b dm =
     dm\<lparr>regions := (regions dm)[r := (regions dm ! r)\<lparr>absoluteBounds := Some b\<rparr>]\<rparr>"

text \<open>The depth map that \<open>getInstance\<close> builds for \<open>exRoot\<close>, after the region of Y
  was drawn: region Y (index 0) is a root with the children R (1) and D (3); C (2) is the
  child of R. Only Y has absolute bounds yet.\<close>

definition exDM :: depthmap where
  "exDM = setAbsoluteBounds 0 \<lparr>b_x = 0, b_y = 0, b_width = 800, b_height = 800\<rparr>
            (fst (getInstance None exRoot))"

definition exRegionMap :: "string \<Rightarrow> nat option" where
  "exRegionMap = regionMap (fst (getInstance None exRoot))"

definition exRegions :: "region list" where
  "exRegions =
     [mkRegion [''R'', ''D''] ''Y'' 800
        (Some \<lparr>b_x = 0, b_y = 0, b_width = 800, b_height = 800\<rparr>) None [1, 3],
      mkRegion [''C''] ''R'' 600 None (Some 0) [2],
      mkRegion [''t''] ''C'' 300 None (Some 1) [],
      mkRegion [] ''D'' 100 None (Some 0) []]"

text \<open>\<open>vp3\<close> and \<open>vp4\<close> have equal coordinates and zoom and different scroll objects.\<close>

definition vp1 :: viewport where
  "vp1 = \<lparr>scroll_ref = 1, scroll_x = 0, scroll_y = 0, zoom = 0.5\<rparr>"
definition vp2 :: viewport where
  "vp2 = \<lparr>scroll_ref = 2, scroll_x = 5000, scroll_y = 5000, zoom = 1\<rparr>"
definition vp3 :: viewport where
  "vp3 = \<lparr>scroll_ref = 3, scroll_x = 5000, scroll_y = 5000, zoom = 0.5\<rparr>"
definition vp4 :: viewport where
  "vp4 = \<lparr>scroll_ref = 4, scroll_x = 5000, scroll_y = 5000, zoom = 0.5\<rparr>"

text \<open>Two roots: Y (0) with the child R (1), and Z (2), far outside the viewport, with the
  child W (3).\<close>

definition exRegions2 :: "region list" where
  "exRegions2 =
     [mkRegion [''R''] ''Y'' 800 None None [1],
      mkRegion [''a''] ''R'' 100 None (Some 0) [],
      mkRegion [''W''] ''Z'' 800
        (Some \<lparr>b_x = 9000, b_y = 9000, b_width = 100, b_height = 100\<rparr>) None [3],
      mkRegion [''b''] ''W'' 600 None (Some 2) []]"

definition exDM2 :: depthmap where
  "exDM2 = (newDepthMap \<lparr>root_ref = 2, root_children = None, canvasBounds_width = 1000,
                         canvasBounds_height = 1000\<rparr>)
     \<lparr>rootRegions := [0, 2], regions := exRegions2\<rparr>"

text \<open>A model whose node c has no \<open>data\<close>, and a model root without \<open>children\<close>.\<close>

definition malformedRoot :: smodelroot where
  "malformedRoot = \<lparr>root_ref = 7,
      root_children = Some [SNode ''n1'' 100 100 rectData (Some [SNode ''c'' 10 10 None (Some [])])],
      canvasBounds_width = 1000, canvasBounds_height = 1000\<rparr>"

definition noChildrenRoot :: smodelroot where
  "noChildrenRoot = \<lparr>root_ref = 8, root_children = None,
      canvasBounds_width = 1000, canvasBounds_height = 1000\<rparr>"

section \<open>Properties of the constraint resolver\<close>

lemmas ex_defs = mkNode_def mkLayer_def exLayers_def getLayerOfNode_def
  coordinateInLayoutDirection_def layerMatches_def getPositionInLayer_def
  sortLayerNodes_def crossCoordinate_def Let_def

lemma indexOf_lt: "indexOf xs t = Some i \<Longrightarrow> i < length xs"
  by (induction xs arbitrary: i) (auto split: if_splits option.splits)

lemma firstBelow_le: "firstBelow dir t xs i \<le> i + length xs"
proof (induction xs arbitrary: i)
  case Nil
  show ?case by simp
next
  case (Cons a xs)
  show ?case using Cons.IH[of "Suc i"] by simp
qed

lemma getPositionInLayer_range:
  "0 \<le> getPositionInLayer nodes t dir \<and> nat (getPositionInLayer nodes t dir) \<le> length nodes"
  using firstBelow_le[of dir t "sortLayerNodes dir nodes" 0]
  by (auto simp: getPositionInLayer_def Let_def sortLayerNodes_def
           split: option.splits dest!: indexOf_lt)

lemma getActualTargetIndex_Some:
  "nat p \<le> length ns \<Longrightarrow> \<exists>r. getActualTargetIndex p b ns = Some r"
  by (auto simp: getActualTargetIndex_def Let_def)

lemma firstMatching_find:
  "firstMatchingLayer c dir layers = map_option lid (find (layerMatches c dir) layers)"
  by (induction layers) auto

lemma contiguous_contains:
  "contiguous layers \<Longrightarrow> notBeforeFirst dir layers c
   \<Longrightarrow> find (layerMatches c dir) layers = Some l \<Longrightarrow> intervalContains dir l c"
proof (induction layers rule: contiguous.induct)
  case 1
  then show ?case by simp
next
  case (2 a)
  then show ?case
    by (cases dir)
       (auto simp: notBeforeFirst_def intervalContains_def layerMatches_def split: if_splits)
next
  case (3 a b ls)
  show ?case
  proof (cases "layerMatches c dir a")
    case True
    with 3 show ?thesis
      by (cases dir) (auto simp: notBeforeFirst_def intervalContains_def layerMatches_def)
  next
    case False
    with 3(3) have nb: "notBeforeFirst dir (b # ls) c"
      using 3(2) by (cases dir) (auto simp: notBeforeFirst_def layerMatches_def)
    from False 3(4) have "find (layerMatches c dir) (b # ls) = Some l" by simp
    with 3 nb show ?thesis by simp
  qed
qed

text \<open>C4, as claimed, fails: on a node with the shadow flag set, \<open>getLayerOfNode\<close> and
  \<open>getPositionInLayer\<close> answer for \<open>position\<close> (layer 0, index 0), not for the
  shadow coordinates (which would give layer 1, index 1).\<close>

theorem shadow_position_counterexample:
  "shadow shadowedA \<and> shadowX shadowedA + size_width shadowedA / 2 = 150
   \<and> getLayerOfNode shadowedA [shadowedA] exLayers RIGHT = Some 0
   \<and> getLayerOfNode (atShadow shadowedA) [shadowedA] exLayers RIGHT = Some 1
   \<and> getPositionInLayer [mkNode ''B'' 50 50 False 0 1 (-1)] shadowedA RIGHT = 0
   \<and> getPositionInLayer [mkNode ''B'' 50 50 False 0 1 (-1)] (atShadow shadowedA) RIGHT = 1"
  by (simp add: ex_defs shadowedA_def atShadow_def)

lemma reshadow_fields:
  "nid (reshadow s sx sy n) = nid n"
  "position_x (reshadow s sx sy n) = position_x n"
  "position_y (reshadow s sx sy n) = position_y n"
  "size_width (reshadow s sx sy n) = size_width n"
  "size_height (reshadow s sx sy n) = size_height n"
  "selected (reshadow s sx sy n) = selected n"
  "direction (reshadow s sx sy n) = direction n"
  "properties (reshadow s sx sy n) = properties n"
  by (simp_all add: reshadow_def)

lemma crossCoordinate_reshadow:
  "crossCoordinate dir (reshadow s sx sy n) = crossCoordinate dir n"
  by (simp add: crossCoordinate_def reshadow_fields)

lemma getNodesOfLayer_reshadow:
  "getNodesOfLayer l (map (reshadow s sx sy) ns) = map (reshadow s sx sy) (getNodesOfLayer l ns)"
  by (induction ns) (simp_all add: reshadow_fields)

lemma insort_key_reshadow:
  "insort_key (crossCoordinate dir) (reshadow s sx sy a) (map (reshadow s sx sy) xs)
     = map (reshadow s sx sy) (insort_key (crossCoordinate dir) a xs)"
  by (induction xs) (simp_all add: crossCoordinate_reshadow)

lemma sortLayerNodes_reshadow:
  "sortLayerNodes dir (map (reshadow s sx sy) ns) = map (reshadow s sx sy) (sortLayerNodes dir ns)"
  unfolding sortLayerNodes_def
  by (induction ns) (simp_all add: insort_key_reshadow)

lemma indexOf_reshadow:
  "indexOf (map (reshadow s sx sy) ns) (reshadow s sx sy t) = indexOf ns t"
  by (induction ns) (simp_all add: reshadow_fields)

lemma firstBelow_reshadow:
  "firstBelow dir (reshadow s sx sy t) (map (reshadow s sx sy) ns) i = firstBelow dir t ns i"
  by (induction ns arbitrary: i) (simp_all add: crossCoordinate_reshadow)

lemma maxConsLoop_reshadow:
  "maxConsLoop (map (reshadow s sx sy) ns) (map_option (reshadow s sx sy) a, m)
     = (map_option (reshadow s sx sy) (fst (maxConsLoop ns (a, m))), snd (maxConsLoop ns (a, m)))"
proof (induction ns arbitrary: a m)
  case Nil
  show ?case by simp
next
  case (Cons x ns)
  show ?case
    using Cons.IH[of "Some x" "layerConstraint (properties x)"] Cons.IH[of a m]
    by (simp add: reshadow_fields)
qed

lemma filter_reshadow:
  "filter (\<lambda>n. layerId (properties n) \<le> c \<and> layerConstraint (properties n) > layerId (properties n))
      (map (reshadow s sx sy) ns)
   = map (reshadow s sx sy)
      (filter (\<lambda>n. layerId (properties n) \<le> c \<and> layerConstraint (properties n) > layerId (properties n)) ns)"
  by (induction ns) (simp_all add: reshadow_fields)

lemma getLayerOfNode_reshadow:
  "getLayerOfNode (reshadow s sx sy n) (map (reshadow s sx sy) nodes) layers dir
     = getLayerOfNode n nodes layers dir"
proof -
  have c: "coordinateInLayoutDirection (reshadow s sx sy n) dir = coordinateInLayoutDirection n dir"
    by (simp add: coordinateInLayoutDirection_def reshadow_fields)
  have h: "length xs = 1 \<Longrightarrow> selected (hd (map (reshadow s sx sy) xs)) = selected (hd xs)" for xs
    by (cases xs) (simp_all add: reshadow_fields)
  show ?thesis
    by (auto simp: getLayerOfNode_def c getNodesOfLayer_reshadow Let_def h split: option.splits)
qed

lemma getPositionInLayer_reshadow:
  "getPositionInLayer (map (reshadow s sx sy) layerNodes) (reshadow s sx sy n) dir
     = getPositionInLayer layerNodes n dir"
  by (simp add: getPositionInLayer_def Let_def sortLayerNodes_reshadow indexOf_reshadow
        firstBelow_reshadow cong: option.case_cong)

lemma getActualLayer_reshadow:
  "getActualLayer (reshadow s sx sy n) (map (reshadow s sx sy) nodes) cand
     = getActualLayer n nodes cand"
proof -
  let ?F = "filter (\<lambda>n. layerId (properties n) \<le> cand
                        \<and> layerConstraint (properties n) > layerId (properties n)) nodes"
  have m: "maxConsLoop (map (reshadow s sx sy) ?F) (None, -1)
     = (map_option (reshadow s sx sy) (fst (maxConsLoop ?F (None, -1))), snd (maxConsLoop ?F (None, -1)))"
    using maxConsLoop_reshadow[of s sx sy ?F None "-1"] by simp
  show ?thesis
    by (cases "maxConsLoop ?F (None, -1)"; cases "fst (maxConsLoop ?F (None, -1))")
       (simp_all add: getActualLayer_def Let_def filter_reshadow m reshadow_fields)
qed

lemma getActualTargetIndex_reshadow:
  "getActualTargetIndex p b (map (reshadow s sx sy) layerNodes) = getActualTargetIndex p b layerNodes"
  by (simp add: getActualTargetIndex_def Let_def reshadow_fields)

lemma hasPinnedInLayer_reshadow:
  "hasPinnedInLayer l (map (reshadow s sx sy) ns) = hasPinnedInLayer l ns"
  by (induction ns) (simp_all add: reshadow_fields)

lemma shouldOnlyLCBeSet_reshadow:
  "shouldOnlyLCBeSet (reshadow s sx sy n) layers dir = shouldOnlyLCBeSet n layers dir"
  by (simp add: shouldOnlyLCBeSet_def reshadow_fields)

text \<open>C4, amended: the layer, the boosted layer, the test of the connected nodes for a
  pinned layer, the position in the layer and the boosted position do not depend on the
  shadow flag or the shadow coordinates of any node, neither of the target nor of the nodes
  in the lists; they are read from \<open>position\<close>, \<open>size\<close> and the layout properties.\<close>

theorem resolver_reads_position_only:
  "getLayerOfNode (reshadow s sx sy n) (map (reshadow s sx sy) nodes) layers dir
     = getLayerOfNode n nodes layers dir
   \<and> getActualLayer (reshadow s sx sy n) (map (reshadow s sx sy) nodes) cand
     = getActualLayer n nodes cand
   \<and> hasPinnedInLayer l (map (reshadow s sx sy) nodes) = hasPinnedInLayer l nodes
   \<and> getPositionInLayer (map (reshadow s sx sy) layerNodes) (reshadow s sx sy n) dir
     = getPositionInLayer layerNodes n dir
   \<and> getActualTargetIndex p b (map (reshadow s sx sy) layerNodes)
     = getActualTargetIndex p b layerNodes
   \<and> shouldOnlyLCBeSet (reshadow s sx sy n) layers dir = shouldOnlyLCBeSet n layers dir"
  by (simp add: getLayerOfNode_reshadow getPositionInLayer_reshadow getActualLayer_reshadow
        getActualTargetIndex_reshadow hasPinnedInLayer_reshadow shouldOnlyLCBeSet_reshadow)

text \<open>C6, as claimed, fails: a coordinate of -50 lies in none of the three intervals, yet
  \<open>getLayerOfNode\<close> answers with the first layer, not with a new last layer.\<close>

theorem getLayerOfNode_interval_counterexample:
  "coordinateInLayoutDirection beforeFirst RIGHT = -50
   \<and> \<not> intervalContains RIGHT (mkLayer 0 0 100) (-50)
   \<and> \<not> intervalContains RIGHT (mkLayer 1 100 220) (-50)
   \<and> \<not> intervalContains RIGHT (mkLayer 2 220 300) (-50)
   \<and> getLayerOfNode beforeFirst [beforeFirst, mkNode ''B'' 250 10 False 2 0 (-1)]
        [mkLayer 0 0 100, mkLayer 1 100 220, mkLayer 2 220 300] RIGHT = Some 0"
  by (simp add: ex_defs beforeFirst_def intervalContains_def)

text \<open>C6, amended: for a non-empty layer list \<open>getLayerOfNode\<close> returns the id of the first
  layer, in list order, whose \<open>end\<close> lies beyond the coordinate along the layout axis
  (the \<open>begin\<close> of a layer is not tested); when the layers are contiguous and the
  coordinate is not before the first layer's \<open>begin\<close>, that layer's half-open interval
  contains the coordinate. When no layer's end lies beyond the coordinate, the result is the
  last layer's id if exactly one node has that layer id and that node is selected, and the
  last layer's id plus one otherwise. With the bounds 0, 100, 220, 300 in a RIGHT layout, an
  x-center of 150 resolves to the layer from 100 to 220.\<close>

theorem getLayerOfNode_first_layer_beyond:
  assumes "layers \<noteq> []"
  shows "getLayerOfNode node nodes layers dir =
           Some (case find (layerMatches (coordinateInLayoutDirection node dir) dir) layers of
                   Some l \<Rightarrow> lid l
                 | None \<Rightarrow>
                     if length (getNodesOfLayer (lid (last layers)) nodes) = 1
                        \<and> selected (hd (getNodesOfLayer (lid (last layers)) nodes))
                     then lid (last layers) else lid (last layers) + 1)
         \<and> (\<forall>l. contiguous layers
                \<and> notBeforeFirst dir layers (coordinateInLayoutDirection node dir)
                \<and> find (layerMatches (coordinateInLayoutDirection node dir) dir) layers = Some l
              \<longrightarrow> intervalContains dir l (coordinateInLayoutDirection node dir))
         \<and> (coordinateInLayoutDirection node RIGHT = 150
              \<longrightarrow> getLayerOfNode node nodes exLayers RIGHT = Some 1)"
proof -
  have a: "getLayerOfNode node nodes layers dir =
           Some (case find (layerMatches (coordinateInLayoutDirection node dir) dir) layers of
                   Some l \<Rightarrow> lid l
                 | None \<Rightarrow>
                     if length (getNodesOfLayer (lid (last layers)) nodes) = 1
                        \<and> selected (hd (getNodesOfLayer (lid (last layers)) nodes))
                     then lid (last layers) else lid (last layers) + 1)"
    using assms by (simp add: getLayerOfNode_def firstMatching_find Let_def split: option.splits)
  have c: "coordinateInLayoutDirection node RIGHT = 150
              \<longrightarrow> getLayerOfNode node nodes exLayers RIGHT = Some 1"
    by (simp add: getLayerOfNode_def exLayers_def mkLayer_def layerMatches_def)
  show ?thesis using a c contiguous_contains by blast
qed

text \<open>C6, witness: an x-center of 150 resolves to layer 1, whose interval contains it; an
  x-center of 350 beyond all layers keeps layer 2 for the selected sole node of layer 2 and
  gives the new layer 3 otherwise.\<close>

theorem getLayerOfNode_first_layer_beyond_witness:
  "getLayerOfNode (mkNode ''A'' 150 10 True 0 0 (-1)) [] exLayers RIGHT = Some 1
   \<and> intervalContains RIGHT (mkLayer 1 100 220) 150
   \<and> getLayerOfNode (mkNode ''A'' 350 10 True 2 0 (-1))
        [mkNode ''A'' 350 10 True 2 0 (-1)] exLayers RIGHT = Some 2
   \<and> getLayerOfNode (mkNode ''A'' 350 10 True 1 0 (-1))
        [mkNode ''A'' 350 10 True 1 0 (-1)] exLayers RIGHT = Some 3"
proof -
  have ne: "exLayers \<noteq> []" by (simp add: exLayers_def)
  have f: "find (layerMatches
             (coordinateInLayoutDirection (mkNode ''A'' 150 10 True 0 0 (-1)) RIGHT) RIGHT)
             exLayers = Some (mkLayer 1 100 220)"
    by (simp add: ex_defs)
  have h: "contiguous exLayers \<and> notBeforeFirst RIGHT exLayers
             (coordinateInLayoutDirection (mkNode ''A'' 150 10 True 0 0 (-1)) RIGHT)"
    by (simp add: ex_defs notBeforeFirst_def)
  have c: "coordinateInLayoutDirection (mkNode ''A'' 150 10 True 0 0 (-1)) RIGHT = 150"
    by (simp add: ex_defs)
  note t = getLayerOfNode_first_layer_beyond[OF ne]
  from t[of "mkNode ''A'' 150 10 True 0 0 (-1)" "[]" RIGHT] f h c
  have 1: "getLayerOfNode (mkNode ''A'' 150 10 True 0 0 (-1)) [] exLayers RIGHT = Some 1
   \<and> intervalContains RIGHT (mkLayer 1 100 220) 150" by (simp add: mkLayer_def)
  from t[of "mkNode ''A'' 350 10 True 2 0 (-1)" "[mkNode ''A'' 350 10 True 2 0 (-1)]" RIGHT]
  have 2: "getLayerOfNode (mkNode ''A'' 350 10 True 2 0 (-1))
             [mkNode ''A'' 350 10 True 2 0 (-1)] exLayers RIGHT = Some 2"
    by (simp add: ex_defs)
  from t[of "mkNode ''A'' 350 10 True 1 0 (-1)" "[mkNode ''A'' 350 10 True 1 0 (-1)]" RIGHT]
  have 3: "getLayerOfNode (mkNode ''A'' 350 10 True 1 0 (-1))
             [mkNode ''A'' 350 10 True 1 0 (-1)] exLayers RIGHT = Some 3"
    by (simp add: ex_defs)
  show ?thesis using 1 2 3 by simp
qed

text \<open>C7: when the layer resolved for the target equals its \<open>layerId\<close> and the position
  resolved in that layer equals its \<open>positionId\<close>, \<open>setProperty\<close> returns
  \<open>RefreshDiagramAction\<close>, whatever the graph and the other nodes are.\<close>

theorem setProperty_round_trip:
  assumes "getLayerOfNode target nodes layers (direction target)
             = Some (layerId (properties target))"
    and "getPositionInLayer (getNodesOfLayer (layerId (properties target)) nodes) target
             (direction target) = positionId (properties target)"
  shows "setProperty g nodes layers target = Some RefreshDiagramAction"
proof -
  let ?L = "getNodesOfLayer (layerId (properties target)) nodes"
  let ?S = "sortLayerNodes (direction target) ?L"
  have "nat (getPositionInLayer ?L target (direction target)) \<le> length ?S"
    using getPositionInLayer_range[of ?L target "direction target"]
    by (simp add: sortLayerNodes_def)
  then obtain r where "getActualTargetIndex (getPositionInLayer ?L target (direction target))
      (indexOf ?S target \<noteq> None) ?S = Some r"
    using getActualTargetIndex_Some by blast
  then show ?thesis using assms by (simp add: setProperty_def Let_def)
qed

text \<open>C7, witness: node a, committed to layer 1 at position 0, is released at x = 150,
  inside layer 1, where it is the only node.\<close>

theorem setProperty_round_trip_witness:
  "getLayerOfNode (mkNode ''a'' 150 10 True 1 0 (-1))
      [mkNode ''a'' 150 10 True 1 0 (-1), mkNode ''b'' 50 10 False 0 0 (-1)] exLayers RIGHT
     = Some 1
   \<and> setProperty exGraph
      [mkNode ''a'' 150 10 True 1 0 (-1), mkNode ''b'' 50 10 False 0 0 (-1)] exLayers
      (mkNode ''a'' 150 10 True 1 0 (-1)) = Some RefreshDiagramAction"
proof -
  let ?a = "mkNode ''a'' 150 10 True 1 0 (-1)"
  let ?ns = "[?a, mkNode ''b'' 50 10 False 0 0 (-1)]"
  have d: "direction ?a = RIGHT" and l: "layerId (properties ?a) = 1"
    and p: "positionId (properties ?a) = 0"
    by (simp_all add: mkNode_def)
  have 1: "getLayerOfNode ?a ?ns exLayers (direction ?a) = Some (layerId (properties ?a))"
    by (simp add: ex_defs)
  have 2: "getPositionInLayer (getNodesOfLayer (layerId (properties ?a)) ?ns) ?a (direction ?a)
             = positionId (properties ?a)"
    by (simp add: ex_defs)
  show ?thesis using setProperty_round_trip[OF 1 2, of exGraph] 1 d l by simp
qed

text \<open>C8 at the failing input: A is released in layer 1, which \<open>isLayerForbidden\<close> reports as
  forbidden for A; \<open>setProperty\<close> tests the boosted value 4 instead and returns a static
  constraint that places A in layer 1.\<close>

theorem setProperty_boosted_forbidden_layer:
  "getLayerOfNode boostA [boostA, boostB, boostC] exLayers (direction boostA) = Some 1
   \<and> isLayerForbidden boostGraph boostA 1
   \<and> getActualLayer boostA [boostA, boostB, boostC] 1 = 4
   \<and> \<not> isLayerForbidden boostGraph boostA 4
   \<and> setProperty boostGraph [boostA, boostB, boostC] exLayers boostA
       = Some (SetStaticConstraintAction ''A'' 1 4 0 0)"
  by (simp add: ex_defs boostA_def boostB_def boostC_def boostGraph_def setProperty_def
      isLayerForbidden_def connectedNodes_def getActualLayer_def getActualTargetIndex_def
      shouldOnlyLCBeSet_def)

section \<open>Properties of the expand/collapse engine\<close>

lemmas engine_defs = expandCollapse_def sameViewport_def expandCollapseThreshold_def
  checkCriticalRegions_def processCritical_def setExpansionState_def criticalAdd_def
  criticalDelete_def setAdd_def setDelete_def getExpansionState_def isVisible_def
  sizeInViewport_def newDepthMap_def Let_def eval_nat_numeral

lemma forEachM_invariant:
  assumes "forEachM f xs s = Some s'" and "P s"
    and "\<And>x a b. x \<in> set xs \<Longrightarrow> P a \<Longrightarrow> f x a = Some b \<Longrightarrow> P b"
  shows "P s'"
  using assms
proof (induction xs arbitrary: s)
  case Nil
  then show ?case by simp
next
  case (Cons x xs)
  from Cons.prems(1) obtain m where m: "f x s = Some m" and r: "forEachM f xs m = Some s'"
    by (auto split: option.splits)
  have "P m" using Cons.prems(3)[of x s m] Cons.prems(2) m by simp
  show ?case
  proof (rule Cons.IH[OF r \<open>P m\<close>])
    fix y a b
    assume "y \<in> set xs" "P a" "f y a = Some b"
    then show "P b" using Cons.prems(3)[of y a b] by simp
  qed
qed

lemma fold_upd_apply:
  "fold (\<lambda>elem f. f(elem := v)) es f x = (if x \<in> set es then v else f x)"
  by (induction es arbitrary: f) auto

lemma recursiveCollapseRegion_invariant:
  assumes w: "\<And>d r b. r \<in> S \<Longrightarrow> P d \<Longrightarrow> P (setExpansionState r b d)"
    and a: "\<And>d r. r \<in> S \<Longrightarrow> P d \<Longrightarrow> P (criticalAdd r d)"
    and e: "\<And>d r. r \<in> S \<Longrightarrow> P d \<Longrightarrow> P (criticalDelete r d)"
    and str: "\<And>d. P d \<Longrightarrow> regions d = R"
    and closed: "\<And>i. i \<in> S \<Longrightarrow> set (children (R ! i)) \<subseteq> S"
  shows "recursiveCollapseRegion n r dm = Some dm' \<Longrightarrow> r \<in> S \<Longrightarrow> P dm \<Longrightarrow> P dm'"
proof (induction n arbitrary: r dm dm')
  case 0
  then show ?case by simp
next
  case (Suc n)
  let ?d0 = "criticalDelete r (setExpansionState r COLLAPSED dm)"
  have p0: "P ?d0" using Suc.prems w e by simp
  have cs: "set (children (regions dm ! r)) \<subseteq> S" using closed[OF Suc.prems(2)] str[OF Suc.prems(3)] by simp
  from Suc.prems(1) have run: "forEachM (\<lambda>childRegion d.
                 if expansionState d childRegion = Some EXPANDED
                 then recursiveCollapseRegion n childRegion d else Some d)
       (children (regions dm ! r)) ?d0 = Some dm'" by simp
  show ?case
  proof (rule forEachM_invariant[OF run, of P, OF p0])
    fix x a b
    assume "x \<in> set (children (regions dm ! r))" "P a"
      "(if expansionState a x = Some EXPANDED then recursiveCollapseRegion n x a else Some a) = Some b"
    then show "P b" using Suc.IH[of x a b] cs by (auto split: if_splits)
  qed
qed

lemma searchUntilCollapse_invariant:
  assumes w: "\<And>d r b. r \<in> S \<Longrightarrow> P d \<Longrightarrow> P (setExpansionState r b d)"
    and a: "\<And>d r. r \<in> S \<Longrightarrow> P d \<Longrightarrow> P (criticalAdd r d)"
    and e: "\<And>d r. r \<in> S \<Longrightarrow> P d \<Longrightarrow> P (criticalDelete r d)"
    and str: "\<And>d. P d \<Longrightarrow> regions d = R"
    and closed: "\<And>i. i \<in> S \<Longrightarrow> set (children (R ! i)) \<subseteq> S"
  shows "searchUntilCollapse n vp t r dm = Some dm' \<Longrightarrow> r \<in> S \<Longrightarrow> P dm \<Longrightarrow> P dm'"
proof (induction n arbitrary: r dm dm')
  case 0
  then show ?case by simp
next
  case (Suc n)
  let ?d0 = "setExpansionState r True dm"
  have p0: "P ?d0" using Suc.prems w by simp
  have cs: "set (children (regions dm ! r)) \<subseteq> S" using closed[OF Suc.prems(2)] str[OF Suc.prems(3)] by simp
  from Suc.prems(1) have run: "forEachM (\<lambda>childRegion d.
                 if boundingRectangle (regions d ! childRegion) \<noteq> None then
                   (if getExpansionState d childRegion vp t = COLLAPSED
                    then recursiveCollapseRegion n childRegion (criticalAdd r d)
                    else searchUntilCollapse n vp t childRegion d)
                 else Some d)
       (children (regions dm ! r)) ?d0 = Some dm'" by simp
  show ?case
  proof (rule forEachM_invariant[OF run, of P, OF p0])
    fix x c b
    assume x: "x \<in> set (children (regions dm ! r))" and pc: "P c" and
      f: "(if boundingRectangle (regions c ! x) \<noteq> None then
                   (if getExpansionState c x vp t = COLLAPSED
                    then recursiveCollapseRegion n x (criticalAdd r c)
                    else searchUntilCollapse n vp t x c)
                 else Some c) = Some b"
    have xS: "x \<in> S" using x cs by auto
    have pa: "P (criticalAdd r c)" using a[OF Suc.prems(2) pc] .
    show "P b"
    proof (cases "boundingRectangle (regions c ! x) \<noteq> None")
      case False
      with f pc show ?thesis by simp
    next
      case True
      show ?thesis
      proof (cases "getExpansionState c x vp t")
        case True
        with f \<open>boundingRectangle (regions c ! x) \<noteq> None\<close>
        have "searchUntilCollapse n vp t x c = Some b" by simp
        then show ?thesis using Suc.IH xS pc by blast
      next
        case False
        with f \<open>boundingRectangle (regions c ! x) \<noteq> None\<close>
        have "recursiveCollapseRegion n x (criticalAdd r c) = Some b" by simp
        then show ?thesis
          using recursiveCollapseRegion_invariant[of S P R n x "criticalAdd r c" b] w a e str closed xS pa
          by blast
      qed
    qed
  qed
qed

lemma getExpansionState_cong:
  "regions d = regions dm \<Longrightarrow> rootElement d = rootElement dm
   \<Longrightarrow> absoluteVisibilityBuffer d = absoluteVisibilityBuffer dm
   \<Longrightarrow> getExpansionState d r vp t = getExpansionState dm r vp t"
  by (simp add: getExpansionState_def isVisible_def sizeInViewport_def cong: option.case_cong)

lemma set_setAdd: "set (setAdd x xs) = insert x (set xs)"
  by (auto simp: setAdd_def)

lemma set_setDelete: "set (setDelete x xs) = set xs - {x}"
  by (auto simp: setDelete_def)

lemma regions_writes:
  "regions (setExpansionState r b d) = regions d"
  "regions (criticalAdd r d) = regions d"
  "regions (criticalDelete r d) = regions d"
  by (simp_all add: setExpansionState_def criticalAdd_def criticalDelete_def)

lemma recursiveCollapseRegion_preserves:
  assumes w: "\<And>d r b. P d \<Longrightarrow> P (setExpansionState r b d)"
    and a: "\<And>d r. P d \<Longrightarrow> P (criticalAdd r d)"
    and e: "\<And>d r. P d \<Longrightarrow> P (criticalDelete r d)"
    and run: "recursiveCollapseRegion n r dm = Some dm'" and p: "P dm"
  shows "P dm'"
proof -
  let ?Q = "\<lambda>d. P d \<and> regions d = regions dm"
  have "?Q dm'"
  proof (rule recursiveCollapseRegion_invariant[of UNIV ?Q "regions dm" n r dm dm'])
    show "recursiveCollapseRegion n r dm = Some dm'" by (rule run)
  qed (use w a e p in \<open>simp_all add: regions_writes\<close>)
  then show ?thesis by simp
qed

lemma searchUntilCollapse_preserves:
  assumes w: "\<And>d r b. P d \<Longrightarrow> P (setExpansionState r b d)"
    and a: "\<And>d r. P d \<Longrightarrow> P (criticalAdd r d)"
    and e: "\<And>d r. P d \<Longrightarrow> P (criticalDelete r d)"
    and run: "searchUntilCollapse n vp t r dm = Some dm'" and p: "P dm"
  shows "P dm'"
proof -
  let ?Q = "\<lambda>d. P d \<and> regions d = regions dm"
  have "?Q dm'"
  proof (rule searchUntilCollapse_invariant[of UNIV ?Q "regions dm" n vp t r dm dm'])
    show "searchUntilCollapse n vp t r dm = Some dm'" by (rule run)
  qed (use w a e p in \<open>simp_all add: regions_writes\<close>)
  then show ?thesis by simp
qed

lemma processCritical_preserves:
  assumes w: "\<And>d r b. P d \<Longrightarrow> P (setExpansionState r b d)"
    and a: "\<And>d r. P d \<Longrightarrow> P (criticalAdd r d)"
    and e: "\<And>d r. P d \<Longrightarrow> P (criticalDelete r d)"
    and run: "processCritical n vp t r (nx, cs, dm) = Some (nx', cs', dm')" and p: "P dm"
  shows "P dm'"
proof (cases "(case parent (regions dm ! r) of
              Some p \<Rightarrow> expansionState dm p = Some COLLAPSED | None \<Rightarrow> False)
           \<or> \<not> getExpansionState dm r vp t")
  case False
  with run have "dm' = dm" by (auto simp: processCritical_def)
  with p show ?thesis by simp
next
  case True
  let ?d1 = "criticalDelete r (setExpansionState r False dm)"
  let ?d2 = "case parent (regions ?d1 ! r) of Some q \<Rightarrow> criticalAdd q ?d1 | None \<Rightarrow> ?d1"
  have p2: "P ?d2" using p w a e by (simp split: option.splits)
  from run True have loop: "forEachM (\<lambda>childRegion d. recursiveCollapseRegion n childRegion d)
                     (children (regions ?d2 ! r)) ?d2 = Some dm'"
    by (auto simp: processCritical_def Let_def split: option.splits prod.splits)
  show ?thesis
  proof (rule forEachM_invariant[OF loop, of P, OF p2])
    fix x c b
    assume "P c" "recursiveCollapseRegion n x c = Some b"
    then show "P b" using recursiveCollapseRegion_preserves[of P n x c b] w a e by blast
  qed
qed

lemma processLoop_preserves:
  assumes w: "\<And>d r b. P d \<Longrightarrow> P (setExpansionState r b d)"
    and a: "\<And>d r. P d \<Longrightarrow> P (criticalAdd r d)"
    and e: "\<And>d r. P d \<Longrightarrow> P (criticalDelete r d)"
  shows "processLoop n vp t tbp cs dm = Some (cs', dm') \<Longrightarrow> P dm \<Longrightarrow> P dm'"
proof (induction n arbitrary: tbp cs dm)
  case 0
  then show ?case by simp
next
  case (Suc n)
  show ?case
  proof (cases "tbp = []")
    case True
    with Suc.prems show ?thesis by simp
  next
    case False
    with Suc.prems(1) obtain nx cs1 d1 where
      pass: "forEachM (processCritical n vp t) tbp ([], cs, dm) = Some (nx, cs1, d1)"
      and rest: "processLoop n vp t nx cs1 d1 = Some (cs', dm')"
      by (auto split: option.splits)
    have "(\<lambda>st. P (snd (snd st))) (nx, cs1, d1)"
    proof (rule forEachM_invariant[OF pass, of "\<lambda>st. P (snd (snd st))"])
      show "P (snd (snd ([], cs, dm)))" using Suc.prems(2) by simp
    next
      fix x s1 s2
      assume "P (snd (snd s1))" "processCritical n vp t x s1 = Some s2"
      then show "P (snd (snd s2))"
        using processCritical_preserves[of P n vp t x "fst s1" "fst (snd s1)" "snd (snd s1)"
            "fst s2" "fst (snd s2)" "snd (snd s2)"] w a e
        by simp
    qed
    then show ?thesis using Suc.IH[OF rest] by simp
  qed
qed

lemma checkCriticalRegions_preserves:
  assumes w: "\<And>d r b. P d \<Longrightarrow> P (setExpansionState r b d)"
    and a: "\<And>d r. P d \<Longrightarrow> P (criticalAdd r d)"
    and e: "\<And>d r. P d \<Longrightarrow> P (criticalDelete r d)"
    and run: "checkCriticalRegions n vp t dm = Some dm'" and p: "P dm"
  shows "P dm'"
proof -
  from run obtain cs d1 where
    lp: "processLoop n vp t (criticalRegions dm) [] dm = Some (cs, d1)"
    and fe: "forEachM (\<lambda>childRegion d.
                      if getExpansionState d childRegion vp t = EXPANDED
                      then searchUntilCollapse n vp t childRegion d
                      else recursiveCollapseRegion n childRegion
                             (case parent (regions d ! childRegion) of
                                Some p \<Rightarrow> criticalAdd p d | None \<Rightarrow> d))
            cs d1 = Some dm'"
    by (auto simp: checkCriticalRegions_def split: option.splits)
  have p1: "P d1" using processLoop_preserves[of P n vp t "criticalRegions dm" "[]" dm cs d1] w a e lp p
    by blast
  show ?thesis
  proof (rule forEachM_invariant[OF fe, of P, OF p1])
    fix x c b
    assume pc: "P c" and f: "(if getExpansionState c x vp t = EXPANDED
                      then searchUntilCollapse n vp t x c
                      else recursiveCollapseRegion n x
                             (case parent (regions c ! x) of
                                Some p \<Rightarrow> criticalAdd p c | None \<Rightarrow> c)) = Some b"
    have pq: "P (case parent (regions c ! x) of Some p \<Rightarrow> criticalAdd p c | None \<Rightarrow> c)"
      using pc a by (simp split: option.splits)
    show "P b"
    proof (cases "getExpansionState c x vp t")
      case True
      with f show ?thesis using searchUntilCollapse_preserves[of P n vp t x c b] w a e pc by simp
    next
      case False
      with f show ?thesis
        using recursiveCollapseRegion_preserves[of P n x _ b] w a e pq by simp
    qed
  qed
qed

lemma expandCollapse_records_viewport:
  assumes run: "expandCollapse n vp opts dm = Some dm'"
  shows "sameViewport (viewport_dm dm') vp"
proof (cases "sameViewport (viewport_dm dm) vp")
  case True
  with run show ?thesis by (simp add: expandCollapse_def)
next
  case False
  define P where "P = (\<lambda>d::depthmap. viewport_dm d = Some vp)"
  let ?t = "expandCollapseThreshold opts"
  let ?d1 = "dm\<lparr>viewport_dm := Some vp\<rparr>"
  have w: "\<And>d r b. P d \<Longrightarrow> P (setExpansionState r b d)"
    by (auto simp: P_def setExpansionState_def)
  have a: "\<And>d r. P d \<Longrightarrow> P (criticalAdd r d)"
    by (auto simp: P_def criticalAdd_def)
  have e: "\<And>d r. P d \<Longrightarrow> P (criticalDelete r d)"
    by (auto simp: P_def criticalDelete_def)
  have p1: "P ?d1" by (simp add: P_def)
  have "P dm'"
  proof (cases "criticalRegions dm = []")
    case True
    with run False have loop:
      "forEachM (\<lambda>r d. if getExpansionState d r vp ?t = EXPANDED
                      then searchUntilCollapse n vp ?t r d else Some d)
         (rootRegions dm) ?d1 = Some dm'"
      by (simp add: expandCollapse_def Let_def)
    show ?thesis
    proof (rule forEachM_invariant[OF loop, of P, OF p1])
      fix y c b
      assume "P c" "(if getExpansionState c y vp ?t = EXPANDED
               then searchUntilCollapse n vp ?t y c else Some c) = Some b"
      then show "P b" using searchUntilCollapse_preserves[of P n vp ?t y c b] w a e
        by (auto split: if_splits)
    qed
  next
    case nonempty: False
    with run False have "checkCriticalRegions n vp ?t ?d1 = Some dm'"
      by (simp add: expandCollapse_def Let_def)
    then show ?thesis using checkCriticalRegions_preserves[of P n vp ?t ?d1 dm'] w a e p1 by blast
  qed
  then show ?thesis by (simp add: P_def sameViewport_def)
qed

text \<open>The example depth map is the one that \<open>getInstance\<close> builds from \<open>exRoot\<close>.\<close>

lemma exRoot_canvas:
  "canvasBounds_width exRoot = 1000" "canvasBounds_height exRoot = 1000" "root_ref exRoot = 1"
  by (simp_all add: exRoot_def)

lemma length_regions_init:
  "length (regions (pushElement r c d)) = length (regions d)"
  "length (regions (setParent n r d)) = length (regions d)"
  "length (regions (addChild r n d)) = length (regions d)"
  "length (regions (pushRootRegion r d)) = length (regions d)"
  "length (regions (addRegionToMap r d)) = length (regions d)"
  "length (regions (snd (newRegion c d))) = Suc (length (regions d))"
  "length (regions (newDepthMap e)) = 0"
  by (simp_all add: pushElement_def setParent_def addChild_def pushRootRegion_def
        addRegionToMap_def newRegion_def newDepthMap_def split: option.splits)

lemma case_newRegion:
  "(case newRegion c d of (n, d2) \<Rightarrow> f n d2) = f (length (regions d)) (snd (newRegion c d))"
  by (simp add: newRegion_def)

lemmas init_control = init_def isChildArea_def K_RECTANGLE_def rectData_def case_newRegion
  length_regions_init

lemmas init_writes = pushElement_def setParent_def addChild_def pushRootRegion_def
  addRegionToMap_def newRegion_def setAdd_def newDepthMap_def

lemma init_exRoot:
  "init exRoot (newDepthMap exRoot) =
     (\<lparr>rootRegions = [0], rootElement = exRoot,
       regions =
         [mkRegion [''R'', ''D''] ''Y'' 800 None None [1, 3],
          mkRegion [''C''] ''R'' 600 None (Some 0) [2],
          mkRegion [''t''] ''C'' 300 None (Some 1) [],
          mkRegion [] ''D'' 100 None (Some 0) []],
       regionMap = exRegionMap, viewport_dm = None, criticalRegions = [],
       absoluteVisibilityBuffer = 500, expansionState = (\<lambda>r. None),
       nodeExpansionState = (\<lambda>e. None)\<rparr>, Normal)"
proof -
  let ?d = "fst (init exRoot (newDepthMap exRoot))"
  have n: "snd (init exRoot (newDepthMap exRoot)) = Normal"
    by (simp add: exRoot_def init_control)
  have r: "regions ?d = [mkRegion [''R'', ''D''] ''Y'' 800 None None [1, 3],
          mkRegion [''C''] ''R'' 600 None (Some 0) [2],
          mkRegion [''t''] ''C'' 300 None (Some 1) [],
          mkRegion [] ''D'' 100 None (Some 0) []]"
    apply (simp add: exRoot_def init_control)
    apply (simp add: init_writes mkRegion_def)
    done
  have o: "rootRegions ?d = [0] \<and> rootElement ?d = exRoot \<and> viewport_dm ?d = None
     \<and> criticalRegions ?d = [] \<and> absoluteVisibilityBuffer ?d = 500
     \<and> expansionState ?d = (\<lambda>r. None) \<and> nodeExpansionState ?d = (\<lambda>e. None)"
    apply (simp add: exRoot_def init_control)
    apply (simp add: init_writes)
    done
  have g: "getInstance None exRoot = (?d,
      [''Starting reinizialization of DepthMap'', ''Reinizialized DepthMap''])"
    using n by (cases "init exRoot (newDepthMap exRoot)") (simp add: getInstance_def)
  have m: "exRegionMap = regionMap ?d"
    by (simp add: exRegionMap_def g)
  have "?d = \<lparr>rootRegions = [0], rootElement = exRoot,
       regions =
         [mkRegion [''R'', ''D''] ''Y'' 800 None None [1, 3],
          mkRegion [''C''] ''R'' 600 None (Some 0) [2],
          mkRegion [''t''] ''C'' 300 None (Some 1) [],
          mkRegion [] ''D'' 100 None (Some 0) []],
       regionMap = exRegionMap, viewport_dm = None, criticalRegions = [],
       absoluteVisibilityBuffer = 500, expansionState = (\<lambda>r. None),
       nodeExpansionState = (\<lambda>e. None)\<rparr>"
    by (rule depthmap.equality) (simp_all add: r o m)
  then show ?thesis using n by (metis prod.collapse)
qed

lemma getInstance_exRoot:
  "getInstance None exRoot =
     (\<lparr>rootRegions = [0], rootElement = exRoot,
       regions =
         [mkRegion [''R'', ''D''] ''Y'' 800 None None [1, 3],
          mkRegion [''C''] ''R'' 600 None (Some 0) [2],
          mkRegion [''t''] ''C'' 300 None (Some 1) [],
          mkRegion [] ''D'' 100 None (Some 0) []],
       regionMap = exRegionMap, viewport_dm = None, criticalRegions = [],
       absoluteVisibilityBuffer = 500, expansionState = (\<lambda>r. None),
       nodeExpansionState = (\<lambda>e. None)\<rparr>,
      [''Starting reinizialization of DepthMap'', ''Reinizialized DepthMap''])"
  by (simp add: getInstance_def init_exRoot)

lemma exDM_literal:
  "exDM = \<lparr>rootRegions = [0], rootElement = exRoot, regions = exRegions,
       regionMap = exRegionMap, viewport_dm = None, criticalRegions = [],
       absoluteVisibilityBuffer = 500, expansionState = (\<lambda>r. None),
       nodeExpansionState = (\<lambda>e. None)\<rparr>"
  by (simp add: exDM_def getInstance_exRoot setAbsoluteBounds_def exRegions_def mkRegion_def)

text \<open>C1, as claimed, fails: \<open>vp4\<close> has the scroll coordinates and the zoom of the
  preceding call's \<open>vp3\<close> in a new scroll object; the call is not skipped and empties
  \<open>criticalRegions\<close>.\<close>

theorem equal_viewport_new_scroll_object_counterexample:
  "scroll_x vp4 = scroll_x vp3 \<and> scroll_y vp4 = scroll_y vp3 \<and> zoom vp4 = zoom vp3
   \<and> criticalOf (expandCollapseSeq [vp1, vp3] exDM) = Some [1]
   \<and> criticalOf (expandCollapseSeq [vp1, vp3, vp4] exDM) = Some []"
  by (simp add: engine_defs exDM_literal exRoot_canvas exRegions_def mkRegion_def vp1_def vp3_def vp4_def
        expandCollapseSeq_def criticalOf_def)

text \<open>C1, amended: after a call of \<open>expandCollapse\<close> with a viewport, a further call
  whose viewport has the same scroll object and the same zoom returns the depth map
  unchanged, whatever the options and the coordinates read through the scroll object.\<close>

theorem expandCollapse_same_scroll_object_noop:
  assumes "expandCollapse n vp opts dm = Some dm'"
    and "scroll_ref vp' = scroll_ref vp" and "zoom vp' = zoom vp"
  shows "expandCollapse m vp' opts' dm' = Some dm'"
proof -
  have "sameViewport (viewport_dm dm') vp" using assms(1) by (rule expandCollapse_records_viewport)
  then have "sameViewport (viewport_dm dm') vp'" using assms(2,3)
    by (auto simp: sameViewport_def split: option.splits)
  then show ?thesis by (simp add: expandCollapse_def)
qed

text \<open>C1, witness: the second call passes the scroll object of the first one.\<close>

theorem expandCollapse_same_scroll_object_noop_witness:
  "expandCollapse 5 vp1 None exDM \<noteq> None
   \<and> Option.bind (expandCollapse 5 vp1 None exDM) (expandCollapse 3 (vp1\<lparr>scroll_x := 77\<rparr>) (Some 0.5))
       = expandCollapse 5 vp1 None exDM"
proof -
  have "\<exists>dm'. expandCollapse 5 vp1 None exDM = Some dm'"
    by (simp add: engine_defs exDM_literal exRoot_canvas exRegions_def mkRegion_def vp1_def)
  then obtain dm' where run: "expandCollapse 5 vp1 None exDM = Some dm'" by blast
  have "expandCollapse 3 (vp1\<lparr>scroll_x := 77\<rparr>) (Some 0.5) dm' = Some dm'"
    by (rule expandCollapse_same_scroll_object_noop[OF run]) simp_all
  with run show ?thesis by simp
qed

text \<open>C2 at the failing input: after the calls with \<open>vp1\<close> and \<open>vp2\<close>, region 2 is
  expanded while its parent, region 1, is collapsed.\<close>

theorem orphaned_expansion_after_incremental_update:
  "regionStates (expandCollapseSeq [vp1, vp2] exDM)
     = [Some False, Some False, Some True, Some False]
   \<and> map_option regions (expandCollapseSeq [vp1, vp2] exDM) = Some exRegions
   \<and> parent (exRegions ! 2) = Some 1"
  by (simp add: engine_defs exDM_literal exRoot_canvas exRegions_def mkRegion_def vp1_def vp2_def
        expandCollapseSeq_def regionStates_def upt_rec)

text \<open>C3 at the failing input: after the calls with \<open>vp1\<close> and \<open>vp3\<close>, region 1 is
  collapsed and is the member of \<open>criticalRegions\<close>.\<close>

theorem collapsed_region_in_criticalRegions:
  "criticalOf (expandCollapseSeq [vp1, vp3] exDM) = Some [1]
   \<and> regionStates (expandCollapseSeq [vp1, vp3] exDM)
       = [Some False, Some False, Some False, Some False]"
  by (simp add: engine_defs exDM_literal exRoot_canvas exRegions_def mkRegion_def vp1_def vp3_def
        expandCollapseSeq_def regionStates_def criticalOf_def upt_rec)

text \<open>C5: \<open>getExpansionState\<close> returns COLLAPSED for a region that is not visible;
  otherwise EXPANDED when the region has no bounding rectangle; otherwise EXPANDED exactly
  when \<open>sizeInViewport\<close> reaches the threshold or the zoom is at least 1.
  \<open>sizeInViewport\<close> is the larger of width times zoom over canvas width and height times
  zoom over canvas height, the default threshold is 0.2, and a visible region at zoom 1 is
  EXPANDED for every threshold.\<close>

theorem getExpansionState_cases:
  "(\<not> isVisible dm r vp \<longrightarrow> getExpansionState dm r vp threshold = COLLAPSED)
   \<and> (isVisible dm r vp \<and> boundingRectangle (regions dm ! r) = None
        \<longrightarrow> getExpansionState dm r vp threshold = EXPANDED)
   \<and> (isVisible dm r vp \<and> boundingRectangle (regions dm ! r) = Some node \<longrightarrow>
        (getExpansionState dm r vp threshold = EXPANDED
           \<longleftrightarrow> sizeInViewport dm node vp \<ge> threshold \<or> zoom vp \<ge> 1))
   \<and> sizeInViewport dm node vp =
        max (rect_width node * zoom vp / canvasBounds_width (rootElement dm))
            (rect_height node * zoom vp / canvasBounds_height (rootElement dm))
   \<and> expandCollapseThreshold None = 0.2
   \<and> (isVisible dm r vp \<and> zoom vp = 1 \<longrightarrow> getExpansionState dm r vp threshold = EXPANDED)"
  by (auto simp: getExpansionState_def sizeInViewport_def expandCollapseThreshold_def Let_def max_def
           split: option.splits)

text \<open>C5, witness: region 0 is not visible under \<open>vp2\<close>; region 2 is visible, at zoom
  0.5 it fills 0.15 of the canvas and is COLLAPSED, at zoom 1 it is EXPANDED.\<close>

theorem getExpansionState_cases_witness:
  "\<not> isVisible exDM 0 vp2 \<and> getExpansionState exDM 0 vp2 (expandCollapseThreshold None) = COLLAPSED
   \<and> isVisible exDM 2 vp1 \<and> sizeInViewport exDM \<lparr>rect_id = ''C'', rect_width = 300, rect_height = 300\<rparr> vp1 = 0.15
   \<and> getExpansionState exDM 2 vp1 (expandCollapseThreshold None) = COLLAPSED
   \<and> isVisible exDM 2 vp2 \<and> getExpansionState exDM 2 vp2 (expandCollapseThreshold None) = EXPANDED"
proof -
  let ?n = "\<lparr>rect_id = ''C'', rect_width = 300, rect_height = 300\<rparr>"
  have v0: "\<not> isVisible exDM 0 vp2" and v1: "isVisible exDM 2 vp1" and v2: "isVisible exDM 2 vp2"
    and b: "boundingRectangle (regions exDM ! 2) = Some ?n"
    and z1: "\<not> zoom vp1 \<ge> 1" and z2: "zoom vp2 = 1"
    and c: "canvasBounds_width (rootElement exDM) = 1000" "canvasBounds_height (rootElement exDM) = 1000"
    by (simp_all add: isVisible_def exDM_literal exRoot_canvas exRegions_def mkRegion_def vp1_def vp2_def)
  note t1 = getExpansionState_cases[of exDM 0 vp2 "expandCollapseThreshold None" ?n]
  note t2 = getExpansionState_cases[of exDM 2 vp1 "expandCollapseThreshold None" ?n]
  note t3 = getExpansionState_cases[of exDM 2 vp2 "expandCollapseThreshold None" ?n]
  have s: "sizeInViewport exDM ?n vp1 = 0.15" using t2 c by (simp add: vp1_def)
  have th: "expandCollapseThreshold None = 0.2" using t1 by simp
  have g0: "getExpansionState exDM 0 vp2 (expandCollapseThreshold None) = COLLAPSED" using t1 v0 by blast
  have ns: "\<not> sizeInViewport exDM ?n vp1 \<ge> expandCollapseThreshold None"
    by (simp add: s th)
  have g1: "getExpansionState exDM 2 vp1 (expandCollapseThreshold None) = COLLAPSED"
    using t2 v1 b z1 ns by auto
  have g2: "getExpansionState exDM 2 vp2 (expandCollapseThreshold None) = EXPANDED" using t3 v2 z2 by blast
  show ?thesis using v0 v1 v2 s g0 g1 g2 by simp
qed

lemmas init_defs = getInstance_def init_def newDepthMap_def newRegion_def addRegionToMap_def
  pushElement_def setParent_def addChild_def pushRootRegion_def isChildArea_def
  K_RECTANGLE_def setAdd_def

text \<open>C9, as claimed, fails: \<open>init\<close> throws at node c, after the region of n1 was pushed
  and registered; the depth map that \<open>getInstance\<close> returns holds that region.\<close>

theorem getInstance_partial_counterexample:
  "snd (init malformedRoot (newDepthMap malformedRoot)) = TypeError
   \<and> rootRegions (fst (getInstance None malformedRoot)) = [0]
   \<and> regionMap (fst (getInstance None malformedRoot)) ''n1'' = Some 0
   \<and> snd (getInstance None malformedRoot)
        = [''Starting reinizialization of DepthMap'', ''Failed to initialize DepthMap'']"
  by (simp add: malformedRoot_def rectData_def init_defs)

lemma initHelper_rootRegions:
  "rootRegions (fst (initHelper n r d)) = rootRegions d"
  "rootRegions (fst (initChildren ns r d)) = rootRegions d"
proof (induction n r d and ns r d rule: initHelper_initChildren.induct)
  case (1 i w h d region dm)
  then show ?case by simp
next
  case (2 i w h d cs region dm)
  then show ?case by simp
next
  case (3 region dm)
  then show ?case by simp
next
  case (4 child rest region dm)
  then show ?case
    by (auto simp: newRegion_def addRegionToMap_def pushElement_def setParent_def addChild_def
             split: option.splits bool.splits prod.splits completion.splits)
qed

lemma initRoots_rootRegions:
  "\<exists>ys. rootRegions (fst (initRoots ns d)) = rootRegions d @ ys"
proof (induction ns arbitrary: d)
  case Nil
  then show ?case by simp
next
  case (Cons n ns)
  let ?d3 = "addRegionToMap (length (regions d))
               (pushRootRegion (length (regions d)) (snd (newRegion n d)))"
  have r3: "rootRegions ?d3 = rootRegions d @ [length (regions d)]"
    by (simp add: addRegionToMap_def newRegion_def pushRootRegion_def split: option.splits)
  obtain d4 c where h: "initHelper n (length (regions d)) ?d3 = (d4, c)" by (cases "initHelper n (length (regions d)) ?d3")
  have r4: "rootRegions d4 = rootRegions d @ [length (regions d)]"
    using initHelper_rootRegions(1)[of n "length (regions d)" ?d3] h r3 by simp
  have step: "initRoots (n # ns) d = (case c of TypeError \<Rightarrow> (d4, TypeError) | Normal \<Rightarrow> initRoots ns d4)"
    using h by (simp add: newRegion_def)
  show ?case
  proof (cases c)
    case TypeError
    with step r4 show ?thesis by simp
  next
    case Normal
    from Cons.IH[of d4] obtain ys where "rootRegions (fst (initRoots ns d4)) = rootRegions d4 @ ys" by blast
    with step r4 Normal show ?thesis by simp
  qed
qed

text \<open>C9, amended: when \<open>init\<close> throws while the depth map is rebuilt, \<open>getInstance\<close>
  returns normally with the depth map as the exception left it and logs the failure. That
  depth map keeps every region registered before the failure: its \<open>rootRegions\<close> are
  empty exactly when the children of the model root could not be read, and then its
  \<open>regionMap\<close> is empty too.\<close>

theorem getInstance_catches_init_failure:
  assumes fail: "init rootElem (newDepthMap rootElem) = (dm, TypeError)"
    and rebuild: "inst = None \<or> (\<exists>d. inst = Some d \<and> root_ref (rootElement d) \<noteq> root_ref rootElem)"
  shows "getInstance inst rootElem =
           (dm, [''Starting reinizialization of DepthMap'', ''Failed to initialize DepthMap''])
       \<and> (rootRegions dm = [] \<longleftrightarrow> root_children rootElem = None)
       \<and> (root_children rootElem = None \<longrightarrow> regionMap dm = (\<lambda>k. None))"
proof -
  have a: "getInstance inst rootElem =
           (dm, [''Starting reinizialization of DepthMap'', ''Failed to initialize DepthMap''])"
    using fail rebuild by (auto simp: getInstance_def)
  have b: "root_children rootElem = None \<Longrightarrow> dm = newDepthMap rootElem"
    using fail by (simp add: init_def)
  have c: "rootRegions dm \<noteq> []" if "root_children rootElem = Some cs" for cs
  proof (cases cs)
    case Nil
    with that fail show ?thesis by (simp add: init_def)
  next
    case (Cons n ns)
    let ?d0 = "newDepthMap rootElem"
    let ?d3 = "addRegionToMap (length (regions ?d0))
               (pushRootRegion (length (regions ?d0)) (snd (newRegion n ?d0)))"
    have r3: "rootRegions ?d3 = rootRegions ?d0 @ [length (regions ?d0)]"
      by (simp add: addRegionToMap_def newRegion_def pushRootRegion_def split: option.splits)
    obtain d4 k where h: "initHelper n (length (regions ?d0)) ?d3 = (d4, k)"
      by (cases "initHelper n (length (regions ?d0)) ?d3")
    have r4: "rootRegions d4 \<noteq> []"
      using initHelper_rootRegions(1)[of n "length (regions ?d0)" ?d3] h r3 by simp
    have step: "initRoots (n # ns) ?d0 = (case k of TypeError \<Rightarrow> (d4, TypeError) | Normal \<Rightarrow> initRoots ns d4)"
      using h by (simp add: newRegion_def)
    from initRoots_rootRegions[of ns d4] r4 have "rootRegions (fst (initRoots ns d4)) \<noteq> []" by auto
    then have "rootRegions (fst (initRoots (n # ns) ?d0)) \<noteq> []"
      using step r4 by (cases k) simp_all
    then show ?thesis using fail that Cons by (simp add: init_def)
  qed
  have d: "rootRegions dm = [] \<longleftrightarrow> root_children rootElem = None"
  proof (cases "root_children rootElem")
    case None
    then show ?thesis using b by (simp add: newDepthMap_def)
  next
    case (Some cs)
    then show ?thesis using c by simp
  qed
  show ?thesis using a b d by (auto simp: newDepthMap_def)
qed

text \<open>C9, witness: the model with the malformed node c, and the model root without
  children replacing the instance of another model.\<close>

theorem getInstance_catches_init_failure_witness:
  "snd (init malformedRoot (newDepthMap malformedRoot)) = TypeError
   \<and> getInstance None malformedRoot =
       (fst (init malformedRoot (newDepthMap malformedRoot)),
        [''Starting reinizialization of DepthMap'', ''Failed to initialize DepthMap''])
   \<and> rootRegions (fst (getInstance None malformedRoot)) \<noteq> []
   \<and> snd (init noChildrenRoot (newDepthMap noChildrenRoot)) = TypeError
   \<and> rootRegions (fst (getInstance (Some exDM) noChildrenRoot)) = []
   \<and> regionMap (fst (getInstance (Some exDM) noChildrenRoot)) = (\<lambda>k. None)"
proof -
  have s1: "snd (init malformedRoot (newDepthMap malformedRoot)) = TypeError"
    by (simp add: malformedRoot_def rectData_def init_defs)
  then have f1: "init malformedRoot (newDepthMap malformedRoot)
                  = (fst (init malformedRoot (newDepthMap malformedRoot)), TypeError)"
    by (metis prod.collapse)
  have c1: "root_children malformedRoot \<noteq> None" by (simp add: malformedRoot_def)
  have s2: "snd (init noChildrenRoot (newDepthMap noChildrenRoot)) = TypeError"
    by (simp add: noChildrenRoot_def init_def)
  then have f2: "init noChildrenRoot (newDepthMap noChildrenRoot)
                  = (fst (init noChildrenRoot (newDepthMap noChildrenRoot)), TypeError)"
    by (metis prod.collapse)
  have c2: "root_children noChildrenRoot = None" by (simp add: noChildrenRoot_def)
  have rb: "Some exDM = None \<or> (\<exists>d. Some exDM = Some d \<and> root_ref (rootElement d) \<noteq> root_ref noChildrenRoot)"
    by (simp add: exDM_literal exRoot_canvas noChildrenRoot_def)
  note t1 = getInstance_catches_init_failure[OF f1, of None]
  note t2 = getInstance_catches_init_failure[OF f2 rb]
  show ?thesis using t1 t2 s1 s2 c1 c2 by simp
qed

text \<open>C10: on a call with empty \<open>criticalRegions\<close>, a root region r whose expansion test
  returns COLLAPSED is left untouched together with its subtree. Here S holds the regions of
  the other roots' subtrees (it contains every other root and is closed under
  \<open>children\<close>), and x is any region outside S, such as r or one of its descendants, whose
  elements are not elements of a region in S: the expansion state of x, the expansion states
  of its elements and its absence from \<open>criticalRegions\<close> are as before the call.\<close>

theorem cold_start_collapsed_root_untouched:
  assumes cold: "criticalRegions dm = []"
    and run: "expandCollapse n vp opts dm = Some dm'"
    and r: "r \<in> set (rootRegions dm)"
    and coll: "getExpansionState dm r vp (expandCollapseThreshold opts) = COLLAPSED"
    and others: "set (rootRegions dm) - {r} \<subseteq> S"
    and closed: "\<forall>i\<in>S. set (children (regions dm ! i)) \<subseteq> S"
    and x: "x \<notin> S"
    and apart: "\<forall>i\<in>S. set (elements (regions dm ! i)) \<inter> set (elements (regions dm ! x)) = {}"
  shows "expansionState dm' x = expansionState dm x
       \<and> (\<forall>e\<in>set (elements (regions dm ! x)). nodeExpansionState dm' e = nodeExpansionState dm e)
       \<and> x \<notin> set (criticalRegions dm')"
proof (cases "sameViewport (viewport_dm dm) vp")
  case True
  with run have "dm' = dm" by (simp add: expandCollapse_def)
  with cold show ?thesis by simp
next
  case False
  define P where "P = (\<lambda>d::depthmap. regions d = regions dm \<and> rootElement d = rootElement dm
      \<and> absoluteVisibilityBuffer d = absoluteVisibilityBuffer dm
      \<and> rootRegions d = rootRegions dm
      \<and> (\<forall>y. y \<notin> S \<longrightarrow> expansionState d y = expansionState dm y)
      \<and> (\<forall>e. (\<forall>i\<in>S. e \<notin> set (elements (regions dm ! i)))
             \<longrightarrow> nodeExpansionState d e = nodeExpansionState dm e)
      \<and> set (criticalRegions d) \<subseteq> S)"
  let ?t = "expandCollapseThreshold opts"
  let ?d1 = "dm\<lparr>viewport_dm := Some vp\<rparr>"
  have w: "\<And>d r b. r \<in> S \<Longrightarrow> P d \<Longrightarrow> P (setExpansionState r b d)"
    by (auto simp: P_def setExpansionState_def fold_upd_apply)
  have a: "\<And>d r. r \<in> S \<Longrightarrow> P d \<Longrightarrow> P (criticalAdd r d)"
    by (auto simp: P_def criticalAdd_def set_setAdd)
  have e: "\<And>d r. r \<in> S \<Longrightarrow> P d \<Longrightarrow> P (criticalDelete r d)"
    by (auto simp: P_def criticalDelete_def set_setDelete)
  have str: "\<And>d. P d \<Longrightarrow> regions d = regions dm" by (simp add: P_def)
  have cl: "\<And>i. i \<in> S \<Longrightarrow> set (children (regions dm ! i)) \<subseteq> S" using closed by blast
  have p1: "P ?d1" using cold by (simp add: P_def)
  from run False cold have loop:
    "forEachM (\<lambda>r d. if getExpansionState d r vp ?t = EXPANDED
                      then searchUntilCollapse n vp ?t r d else Some d)
       (rootRegions dm) ?d1 = Some dm'"
    by (simp add: expandCollapse_def Let_def)
  have "P dm'"
  proof (rule forEachM_invariant[OF loop, of P, OF p1])
    fix y c b
    assume y: "y \<in> set (rootRegions dm)" and pc: "P c"
      and f: "(if getExpansionState c y vp ?t = EXPANDED
               then searchUntilCollapse n vp ?t y c else Some c) = Some b"
    have same: "getExpansionState c y vp ?t = getExpansionState dm y vp ?t"
      using pc by (intro getExpansionState_cong) (simp_all add: P_def)
    show "P b"
    proof (cases "getExpansionState dm y vp ?t")
      case True
      with coll have "y \<noteq> r" by auto
      with y others have yS: "y \<in> S" by auto
      from True same f have "searchUntilCollapse n vp ?t y c = Some b" by simp
      then show ?thesis
        using searchUntilCollapse_invariant[of S P "regions dm" n vp ?t y c b] w a e str cl yS pc
        by blast
    next
      case False
      with same f pc show ?thesis by simp
    qed
  qed
  moreover have "\<forall>e\<in>set (elements (regions dm ! x)). \<forall>i\<in>S. e \<notin> set (elements (regions dm ! i))"
    using apart by blast
  ultimately show ?thesis using x by (auto simp: P_def)
qed

text \<open>C10, witness: root 2 is not visible and tests COLLAPSED; after the call the states of
  regions 2 and 3 and of the element b are still unwritten, and only region 0 is critical.\<close>

theorem cold_start_collapsed_root_untouched_witness:
  "criticalRegions exDM2 = []
   \<and> getExpansionState exDM2 2 vp1 (expandCollapseThreshold None) = COLLAPSED
   \<and> regionStates (expandCollapse 5 vp1 None exDM2) = [Some True, Some False, None, None]
   \<and> map_option (\<lambda>d. nodeExpansionState d ''b'') (expandCollapse 5 vp1 None exDM2) = Some None
   \<and> criticalOf (expandCollapse 5 vp1 None exDM2) = Some [0]"
proof -
  note ex2 = engine_defs exDM2_def exRegions2_def mkRegion_def vp1_def
  have ex: "\<exists>dm'. expandCollapse 5 vp1 None exDM2 = Some dm'" by (simp add: ex2)
  then obtain dm' where run: "expandCollapse 5 vp1 None exDM2 = Some dm'" by blast
  have cold: "criticalRegions exDM2 = []" by (simp add: ex2)
  have r: "2 \<in> set (rootRegions exDM2)" by (simp add: ex2)
  have coll: "getExpansionState exDM2 2 vp1 (expandCollapseThreshold None) = COLLAPSED"
    by (simp add: ex2)
  have others: "set (rootRegions exDM2) - {2} \<subseteq> {0, 1}" by (auto simp: ex2)
  have closed: "\<forall>i\<in>{0, 1}. set (children (regions exDM2 ! i)) \<subseteq> {0, 1}" by (simp add: ex2)
  have x: "(3::nat) \<notin> {0, 1}" by simp
  have apart: "\<forall>i\<in>{0, 1}. set (elements (regions exDM2 ! i)) \<inter> set (elements (regions exDM2 ! 3)) = {}"
    by (simp add: ex2)
  have x2: "(2::nat) \<notin> {0, 1}" by simp
  have apart2: "\<forall>i\<in>{0, 1}. set (elements (regions exDM2 ! i)) \<inter> set (elements (regions exDM2 ! 2)) = {}"
    by (simp add: ex2)
  note t3 = cold_start_collapsed_root_untouched[OF cold run r coll others closed x apart]
  note t2 = cold_start_collapsed_root_untouched[OF cold run r coll others closed x2 apart2]
  have e3: "expansionState dm' 3 = None" and e2: "expansionState dm' 2 = None"
    and b: "nodeExpansionState dm' ''b'' = None"
    using t3 t2 by (simp_all add: ex2)
  have rest: "expansionState dm' 0 = Some True \<and> expansionState dm' 1 = Some False
      \<and> criticalRegions dm' = [0] \<and> length (regions dm') = 4"
    using run by (auto simp add: ex2)
  show ?thesis using run cold coll e3 e2 b rest
    by (simp add: regionStates_def criticalOf_def upt_rec eval_nat_numeral)
qed

end
